theory Spec2Isabelle
  imports Main
begin

section \<open>Python values\<close>

text \<open>
  A Python \<open>str\<close> is a sequence of Unicode code points and \<open>len\<close> counts code points,
  so a string is a list of natural numbers. \<open>lit\<close> gives the code points of a literal
  of the source text.
\<close>

type_synonym pystr = "nat list"

definition lit :: "string \<Rightarrow> pystr" where
  "lit s = map of_char s"

text \<open>
  The values \<open>json.load\<close> and \<open>request.get_json\<close> produce. An object is the list of
  the items of the Python \<open>dict\<close>; \<open>'f\<close> is the type of Python floats.
\<close>

datatype 'f json =
    JNull
  | JBool bool
  | JInt int
  | JFloat 'f
  | JStr pystr
  | JList "'f json list"
  | JObj "(pystr \<times> 'f json) list"

type_synonym 'f pydict = "(pystr \<times> 'f json) list"

text \<open>
  The float arithmetic of the Python runtime is a parameter of the model:
  \<open>float_of_int\<close> is \<open>float(i)\<close> for an \<open>int\<close> (\<open>None\<close>: OverflowError),
  \<open>float_of_str\<close> is \<open>float(s)\<close> for a \<open>str\<close> (\<open>None\<close>: ValueError),
  \<open>float_add\<close> is \<open>+\<close> on two floats, which never raises.
\<close>

record 'f float_ops =
  float_of_int :: "int \<Rightarrow> 'f option"
  float_of_str :: "pystr \<Rightarrow> 'f option"
  float_add :: "'f \<Rightarrow> 'f \<Rightarrow> 'f"

text \<open>A Python number that is an \<open>int\<close> or a \<open>float\<close>.\<close>

datatype 'f pynum = PyInt int | PyFloat 'f

datatype exc_kind = TypeError | ValueError | OverflowError | AttributeError | KeyError

text \<open>\<open>float(value)\<close>; \<open>bool\<close> is a subclass of \<open>int\<close>.\<close>

fun py_float :: "'f float_ops \<Rightarrow> 'f json \<Rightarrow> exc_kind + 'f" where
  "py_float fo (JFloat x) = Inr x"
| "py_float fo (JInt i) =
     (case float_of_int fo i of None \<Rightarrow> Inl OverflowError | Some x \<Rightarrow> Inr x)"
| "py_float fo (JBool b) =
     (case float_of_int fo (if b then 1 else 0) of None \<Rightarrow> Inl OverflowError | Some x \<Rightarrow> Inr x)"
| "py_float fo (JStr s) =
     (case float_of_str fo s of None \<Rightarrow> Inl ValueError | Some x \<Rightarrow> Inr x)"
| "py_float fo JNull = Inl TypeError"
| "py_float fo (JList xs) = Inl TypeError"
| "py_float fo (JObj kvs) = Inl TypeError"

text \<open>
  \<open>total_value += x\<close> for a float \<open>x\<close>: an \<open>int\<close> on the left is converted to a float
  first, which raises OverflowError when it is too large.
\<close>

fun iadd_float :: "'f float_ops \<Rightarrow> 'f pynum \<Rightarrow> 'f \<Rightarrow> exc_kind + 'f pynum" where
  "iadd_float fo (PyInt i) x =
     (case float_of_int fo i of
        None \<Rightarrow> Inl OverflowError
      | Some y \<Rightarrow> Inr (PyFloat (float_add fo y x)))"
| "iadd_float fo (PyFloat y) x = Inr (PyFloat (float_add fo y x))"

text \<open>\<open>str(e)\<close> of the OverflowError that \<open>float\<close> raises on an \<open>int\<close>.\<close>

definition overflow_text :: pystr where
  "overflow_text = lit ''int too large to convert to float''"

section \<open>The batch file aggregator (task 2, the refactored module)\<close>

subsection \<open>Records, log and file system\<close>

text \<open>The dictionary appended to \<open>results\<close>; \<open>summary_file\<close> is its key \<open>'file'\<close>.\<close>

record 'f file_summary =
  summary_file :: pystr
  user_count :: nat
  total_value :: "'f pynum"

text \<open>
  An element of \<open>file_paths\<close>: a \<open>str\<close>, or an object of another type, given by
  the text \<open>str()\<close> returns for it (objects whose \<open>__str__\<close> raises are left out).
\<close>

datatype path_arg = PathStr pystr | PathObj pystr

text \<open>The dictionary appended to \<open>errors\<close>, with keys \<open>'file'\<close> and \<open>'error'\<close>.\<close>

record processing_error =
  error_file :: path_arg
  error :: pystr

text \<open>
  A log record is the level, the f-string of the call with its holes written \<open>{}\<close>,
  and the values that fill the holes.
\<close>

datatype level = INFO | WARNING | ERROR

datatype 'f log_arg =
    AStr pystr
  | ANat nat
  | ANum "'f pynum"
  | AExc exc_kind
  | ATypeOf path_arg
  | APath path_arg
  | AJson "'f json"
  | AErrors "processing_error list"

type_synonym 'f log_record = "level \<times> string \<times> 'f log_arg list"

text \<open>
  What the file system answers for a path: \<open>status\<close> is the outcome of
  \<open>path.exists() and path.is_file()\<close>, \<open>content\<close> the outcome of \<open>open\<close> followed by
  \<open>json.load\<close>. The two are independent, as the two system calls are. The text a
  read error carries is the \<open>str(e)\<close> of the exception.
\<close>

datatype path_status = IsFile | NotFile | StatRaises pystr

datatype read_error =
    FileNotFoundError
  | JSONDecodeError pystr
  | PermissionError pystr
  | UnicodeDecodeError pystr
  | OtherException pystr

record 'f file_state =
  status :: path_status
  content :: "read_error + 'f json"

record 'f world =
  files :: "pystr \<Rightarrow> 'f file_state"
  log_records :: "'f log_record list"

definition logger :: "level \<Rightarrow> string \<Rightarrow> 'f log_arg list \<Rightarrow> 'f world \<Rightarrow> 'f world" where
  "logger lvl msg args w = w\<lparr>log_records := log_records w @ [(lvl, msg, args)]\<rparr>"

subsection \<open>FileProcessingError\<close>

datatype fp_error = FileProcessingError (exc_file_path: pystr) (exc_message: pystr)

text \<open>\<open>str(e)\<close> of a FileProcessingError, as set by \<open>super().__init__\<close>.\<close>

definition fp_error_str :: "fp_error \<Rightarrow> pystr" where
  "fp_error_str e = exc_message e @ lit '' (file: '' @ exc_file_path e @ lit '')''"

subsection \<open>validate_file_path\<close>

definition validate_file_path :: "'f world \<Rightarrow> pystr \<Rightarrow> bool \<times> 'f world" where
  "validate_file_path w fp =
     (case status (files w fp) of
        IsFile \<Rightarrow> (True, w)
      | NotFile \<Rightarrow> (False, w)
      | StatRaises e \<Rightarrow>
          (False, logger ERROR ''Error validating path {}: {}'' [AStr fp, AStr e] w))"

subsection \<open>load_json_file\<close>

text \<open>
  The result type is the source's \<open>Optional[Dict]\<close>. The FileProcessingError raised
  inside the \<open>try\<close> for a top-level value that is not an object is caught by the last
  \<open>except Exception\<close> clause and raised again with its text wrapped.
\<close>

definition load_json_file ::
  "'f world \<Rightarrow> pystr \<Rightarrow> (fp_error + 'f pydict option) \<times> 'f world" where
  "load_json_file w fp =
     (case content (files w fp) of
        Inr data \<Rightarrow>
          (case data of
             JObj d \<Rightarrow> (Inr (Some d), w)
           | _ \<Rightarrow>
               (let e = fp_error_str
                          (FileProcessingError fp (lit ''File does not contain a JSON object''))
                in (Inl (FileProcessingError fp (lit ''Unexpected error: '' @ e)),
                    logger ERROR ''Unexpected error loading {}: {}'' [AStr fp, AStr e] w)))
      | Inl FileNotFoundError \<Rightarrow>
          (Inl (FileProcessingError fp (lit ''File not found'')),
           logger WARNING ''File not found: {}'' [AStr fp] w)
      | Inl (JSONDecodeError e) \<Rightarrow>
          (Inl (FileProcessingError fp (lit ''Invalid JSON format: '' @ e)),
           logger ERROR ''Invalid JSON in {}: {}'' [AStr fp, AStr e] w)
      | Inl (PermissionError e) \<Rightarrow>
          (Inl (FileProcessingError fp (lit ''Permission denied'')),
           logger ERROR ''Permission denied reading {}: {}'' [AStr fp, AStr e] w)
      | Inl (UnicodeDecodeError e) \<Rightarrow>
          (Inl (FileProcessingError fp (lit ''File encoding error'')),
           logger ERROR ''Encoding error in {}: {}'' [AStr fp, AStr e] w)
      | Inl (OtherException e) \<Rightarrow>
          (Inl (FileProcessingError fp (lit ''Unexpected error: '' @ e)),
           logger ERROR ''Unexpected error loading {}: {}'' [AStr fp, AStr e] w))"

subsection \<open>extract_user_data\<close>

text \<open>
  The loop over \<open>enumerate(users)\<close>. \<open>None\<close> is an exception that leaves the loop: the
  inner \<open>except\<close> names TypeError and ValueError only, so an OverflowError goes on to
  the outer handler.
\<close>

fun sum_users ::
  "'f float_ops \<Rightarrow> pystr \<Rightarrow> (nat \<times> 'f json) list \<Rightarrow> 'f pynum \<Rightarrow> 'f world
     \<Rightarrow> 'f pynum option \<times> 'f world" where
  "sum_users fo fp [] tot w = (Some tot, w)"
| "sum_users fo fp ((idx, user) # rest) tot w =
     (case user of
        JObj d \<Rightarrow>
          (let v = (case map_of d (lit ''value'') of None \<Rightarrow> JInt 0 | Some v \<Rightarrow> v)
           in case py_float fo v of
                Inr x \<Rightarrow>
                  (case iadd_float fo tot x of
                     Inr t \<Rightarrow> sum_users fo fp rest t w
                   | Inl e \<Rightarrow> (None, w))
              | Inl e \<Rightarrow>
                  (if e = TypeError \<or> e = ValueError
                   then sum_users fo fp rest tot
                          (logger WARNING ''Invalid value for user at index {} in {}: {}''
                             [ANat idx, AStr fp, AExc e] w)
                   else (None, w)))
      | _ \<Rightarrow>
          sum_users fo fp rest tot
            (logger WARNING ''Invalid user entry at index {} in {}: not a dict''
               [ANat idx, AStr fp] w))"

definition extract_user_data ::
  "'f float_ops \<Rightarrow> 'f world \<Rightarrow> 'f pydict \<Rightarrow> pystr \<Rightarrow> (fp_error + 'f file_summary) \<times> 'f world" where
  "extract_user_data fo w data fp =
     (let (users, w1) =
            (case map_of data (lit ''users'') of
               None \<Rightarrow>
                 (JList [], logger WARNING ''No 'users' key in {}, using empty list'' [AStr fp] w)
             | Some u \<Rightarrow> (u, w))
      in case users of
           JList us \<Rightarrow>
             (case sum_users fo fp (enumerate 0 us) (PyInt 0) w1 of
                (Some tot, w2) \<Rightarrow>
                  (Inr \<lparr>summary_file = fp, user_count = length us, total_value = tot\<rparr>, w2)
              | (None, w2) \<Rightarrow>
                  (Inl (FileProcessingError fp (lit ''Data extraction error: '' @ overflow_text)),
                   logger ERROR ''Error extracting user data from {}: {}''
                     [AStr fp, AStr overflow_text] w2))
         | _ \<Rightarrow>
             (Inl (FileProcessingError fp (39 # lit ''users'' @ 39 # lit '' field must be a list'')),
              w1))"

subsection \<open>process_user_files\<close>

text \<open>The argument of \<open>process_user_files\<close>: a \<open>list\<close>, or any other object.\<close>

datatype paths_arg = PyList "path_arg list" | NotAList

record 'f loop_state =
  results :: "'f file_summary list"
  errors :: "processing_error list"
  world :: "'f world"

datatype raised = RaisedFPE fp_error | RaisedOther pystr

text \<open>
  The body of the \<open>try\<close> for one path: \<open>Inr ()\<close> when it ends normally or by
  \<open>continue\<close>, \<open>Inl\<close> the exception that leaves it.
\<close>

definition try_body ::
  "'f float_ops \<Rightarrow> path_arg \<Rightarrow> 'f loop_state \<Rightarrow> (raised + unit) \<times> 'f loop_state" where
  "try_body fo path st =
     (case path of
        PathObj s \<Rightarrow>
          (Inr (),
           st\<lparr>world := logger ERROR ''Invalid path type: {}'' [ATypeOf path] (world st),
              errors := errors st @
                [\<lparr>error_file = PathStr s, error = lit ''Invalid path type''\<rparr>]\<rparr>)
      | PathStr p \<Rightarrow>
          (case validate_file_path (world st) p of
             (False, w1) \<Rightarrow>
               (Inr (),
                st\<lparr>world := logger WARNING ''Skipping invalid or inaccessible path: {}'' [AStr p] w1,
                   errors := errors st @
                     [\<lparr>error_file = PathStr p,
                       error = lit ''File does not exist or is not accessible''\<rparr>]\<rparr>)
           | (True, w1) \<Rightarrow>
               (case load_json_file w1 p of
                  (Inl e, w2) \<Rightarrow> (Inl (RaisedFPE e), st\<lparr>world := w2\<rparr>)
                | (Inr None, w2) \<Rightarrow>
                    (Inr (),
                     st\<lparr>world := w2,
                        errors := errors st @
                          [\<lparr>error_file = PathStr p, error = lit ''Failed to load file''\<rparr>]\<rparr>)
                | (Inr (Some data), w2) \<Rightarrow>
                    (case extract_user_data fo w2 data p of
                       (Inl e, w3) \<Rightarrow> (Inl (RaisedFPE e), st\<lparr>world := w3\<rparr>)
                     | (Inr result, w3) \<Rightarrow>
                         (Inr (),
                          st\<lparr>results := results st @ [result],
                             world := logger INFO ''Successfully processed {}: {} users, total value {}''
                                        [AStr p, ANat (user_count result), ANum (total_value result)]
                                        w3\<rparr>)))))"

text \<open>
  One iteration of the \<open>for\<close> loop: the \<open>try\<close> with its two handlers. On the paths
  modelled nothing in the body raises anything but a FileProcessingError, so the
  second handler is there and never entered.
\<close>

definition loop_body :: "'f float_ops \<Rightarrow> path_arg \<Rightarrow> 'f loop_state \<Rightarrow> 'f loop_state" where
  "loop_body fo path st =
     (case try_body fo path st of
        (Inr u, st1) \<Rightarrow> st1
      | (Inl (RaisedFPE e), st1) \<Rightarrow>
          st1\<lparr>errors := errors st1 @
                 [\<lparr>error_file = PathStr (exc_file_path e), error = exc_message e\<rparr>]\<rparr>
      | (Inl (RaisedOther e), st1) \<Rightarrow>
          st1\<lparr>world := logger ERROR ''Unexpected error processing {}: {}''
                          [APath path, AStr e] (world st1),
              errors := errors st1 @
                 [\<lparr>error_file = path, error = lit ''Unexpected error: '' @ e\<rparr>]\<rparr>)"

fun for_paths :: "'f float_ops \<Rightarrow> path_arg list \<Rightarrow> 'f loop_state \<Rightarrow> 'f loop_state" where
  "for_paths fo [] st = st"
| "for_paths fo (path # rest) st = for_paths fo rest (loop_body fo path st)"

text \<open>
  The state of the function after its loop, started with empty \<open>results\<close> and
  \<open>errors\<close>.
\<close>

definition run_loop :: "'f float_ops \<Rightarrow> 'f world \<Rightarrow> path_arg list \<Rightarrow> 'f loop_state" where
  "run_loop fo w file_paths =
     for_paths fo file_paths
       \<lparr>results = [], errors = [],
        world = logger INFO ''Processing {} files'' [ANat (length file_paths)] w\<rparr>"

text \<open>
  \<open>Inl\<close> is the text of the ValueError raised to the caller. \<open>errors\<close> is local to the
  function: it reaches the log only.
\<close>

definition process_user_files ::
  "'f float_ops \<Rightarrow> 'f world \<Rightarrow> paths_arg \<Rightarrow> (pystr + 'f file_summary list) \<times> 'f world" where
  "process_user_files fo w arg =
     (case arg of
        NotAList \<Rightarrow> (Inl (lit ''file_paths must be a list''), w)
      | PyList file_paths \<Rightarrow>
          (if file_paths = [] then
             (Inr [], logger WARNING ''Empty file_paths list provided'' [] w)
           else
             (let st = run_loop fo w file_paths;
                  w1 = logger INFO ''Processing complete: {} succeeded, {} failed''
                         [ANat (length (results st)), ANat (length (errors st))] (world st);
                  w2 = (if errors st \<noteq> []
                        then logger WARNING ''Errors encountered: {}'' [AErrors (errors st)] w1
                        else w1)
              in (Inr (results st), w2))))"

section \<open>The reference implementations (task 2, original and hand-written refactor)\<close>

text \<open>
  Both reference modules build the summary of a file with the same expression:
  \<open>len(data.get('users', []))\<close> and \<open>sum(u.get('value', 0) for u in data['users'])\<close>.
\<close>

text \<open>\<open>len(x)\<close>.\<close>

fun py_len :: "'f json \<Rightarrow> exc_kind + nat" where
  "py_len (JList xs) = Inr (length xs)"
| "py_len (JStr s) = Inr (length s)"
| "py_len (JObj kvs) = Inr (length kvs)"
| "py_len v = Inl TypeError"

text \<open>
  The items a \<open>for\<close> iterates over: the elements of a list, the characters of a
  string, the keys of a dictionary.
\<close>

fun py_iter :: "'f json \<Rightarrow> exc_kind + 'f json list" where
  "py_iter (JList xs) = Inr xs"
| "py_iter (JStr s) = Inr (map (\<lambda>c. JStr [c]) s)"
| "py_iter (JObj kvs) = Inr (map (\<lambda>kv. JStr (fst kv)) kvs)"
| "py_iter v = Inl TypeError"

text \<open>\<open>acc + v\<close> for a number \<open>acc\<close>, as \<open>sum\<close> computes it.\<close>

fun py_add :: "'f float_ops \<Rightarrow> 'f pynum \<Rightarrow> 'f json \<Rightarrow> exc_kind + 'f pynum" where
  "py_add fo (PyInt a) (JInt b) = Inr (PyInt (a + b))"
| "py_add fo (PyInt a) (JBool b) = Inr (PyInt (a + (if b then 1 else 0)))"
| "py_add fo (PyInt a) (JFloat y) =
     (case float_of_int fo a of
        None \<Rightarrow> Inl OverflowError
      | Some x \<Rightarrow> Inr (PyFloat (float_add fo x y)))"
| "py_add fo (PyFloat x) (JInt b) =
     (case float_of_int fo b of
        None \<Rightarrow> Inl OverflowError
      | Some y \<Rightarrow> Inr (PyFloat (float_add fo x y)))"
| "py_add fo (PyFloat x) (JBool b) =
     (case float_of_int fo (if b then 1 else 0) of
        None \<Rightarrow> Inl OverflowError
      | Some y \<Rightarrow> Inr (PyFloat (float_add fo x y)))"
| "py_add fo (PyFloat x) (JFloat y) = Inr (PyFloat (float_add fo x y))"
| "py_add fo acc v = Inl TypeError"

text \<open>
  \<open>sum(u.get('value', 0) for u in items)\<close>: the generator is consumed one item at a
  time, so the \<open>get\<close> of an item comes after the addition of the item before it.
  Floats are added from left to right (CPython from 3.12 on compensates the rounding
  of a sum of floats; nothing below depends on it).
\<close>

fun sum_values :: "'f float_ops \<Rightarrow> 'f json list \<Rightarrow> 'f pynum \<Rightarrow> exc_kind + 'f pynum" where
  "sum_values fo [] acc = Inr acc"
| "sum_values fo (u # rest) acc =
     (case u of
        JObj d \<Rightarrow>
          (case py_add fo acc (case map_of d (lit ''value'') of None \<Rightarrow> JInt 0 | Some v \<Rightarrow> v) of
             Inl e \<Rightarrow> Inl e
           | Inr acc' \<Rightarrow> sum_values fo rest acc')
      | _ \<Rightarrow> Inl AttributeError)"

definition reference_summary ::
  "'f float_ops \<Rightarrow> pystr \<Rightarrow> 'f json \<Rightarrow> exc_kind + 'f file_summary" where
  "reference_summary fo path data =
     (case data of
        JObj d \<Rightarrow>
          (case py_len (case map_of d (lit ''users'') of None \<Rightarrow> JList [] | Some u \<Rightarrow> u) of
             Inl e \<Rightarrow> Inl e
           | Inr n \<Rightarrow>
               (case map_of d (lit ''users'') of
                  None \<Rightarrow> Inl KeyError
                | Some u \<Rightarrow>
                    (case py_iter u of
                       Inl e \<Rightarrow> Inl e
                     | Inr items \<Rightarrow>
                         (case sum_values fo items (PyInt 0) of
                            Inl e \<Rightarrow> Inl e
                          | Inr t \<Rightarrow>
                              Inr \<lparr>summary_file = path, user_count = n, total_value = t\<rparr>))))
      | _ \<Rightarrow> Inl AttributeError)"

datatype py_exception = ReadFailed read_error | Raised exc_kind

text \<open>\<open>original.py\<close>: no handler, the first exception leaves the function.\<close>

fun original_loop ::
  "'f float_ops \<Rightarrow> (pystr \<Rightarrow> 'f file_state) \<Rightarrow> pystr list \<Rightarrow> 'f file_summary list
     \<Rightarrow> py_exception + 'f file_summary list" where
  "original_loop fo fs [] res = Inr res"
| "original_loop fo fs (path # rest) res =
     (case content (fs path) of
        Inl e \<Rightarrow> Inl (ReadFailed e)
      | Inr data \<Rightarrow>
          (case reference_summary fo path data of
             Inl e \<Rightarrow> Inl (Raised e)
           | Inr s \<Rightarrow> original_loop fo fs rest (res @ [s])))"

definition original_process_user_files ::
  "'f float_ops \<Rightarrow> 'f world \<Rightarrow> pystr list \<Rightarrow> py_exception + 'f file_summary list" where
  "original_process_user_files fo w file_paths = original_loop fo (files w) file_paths []"

text \<open>\<open>human-written_refactor.py\<close>: every exception is logged and the file skipped.\<close>

fun human_loop ::
  "'f float_ops \<Rightarrow> pystr list \<Rightarrow> 'f file_summary list \<times> 'f world
     \<Rightarrow> 'f file_summary list \<times> 'f world" where
  "human_loop fo [] st = st"
| "human_loop fo (path # rest) (res, w) =
     human_loop fo rest
       (case content (files w path) of
          Inl FileNotFoundError \<Rightarrow> (res, logger WARNING ''File not found: {}'' [AStr path] w)
        | Inl (JSONDecodeError e) \<Rightarrow>
            (res, logger ERROR ''Invalid JSON in {}: {}'' [AStr path, AStr e] w)
        | Inl (PermissionError e) \<Rightarrow>
            (res, logger ERROR ''Error processing {}: {}'' [AStr path, AStr e] w)
        | Inl (UnicodeDecodeError e) \<Rightarrow>
            (res, logger ERROR ''Error processing {}: {}'' [AStr path, AStr e] w)
        | Inl (OtherException e) \<Rightarrow>
            (res, logger ERROR ''Error processing {}: {}'' [AStr path, AStr e] w)
        | Inr data \<Rightarrow>
            (case reference_summary fo path data of
               Inl e \<Rightarrow> (res, logger ERROR ''Error processing {}: {}'' [AStr path, AExc e] w)
             | Inr s \<Rightarrow> (res @ [s], w)))"

definition human_process_user_files ::
  "'f float_ops \<Rightarrow> 'f world \<Rightarrow> pystr list \<Rightarrow> 'f file_summary list \<times> 'f world" where
  "human_process_user_files fo w file_paths = human_loop fo file_paths ([], w)"

section \<open>The user endpoint (task 1, the generated module)\<close>

subsection \<open>Strings and regular expressions of Python\<close>

text \<open>
  The white space of \<open>str.strip()\<close>, \<open>str.isspace()\<close> and of \<open>\s\<close> in a pattern
  on \<open>str\<close>: the code points Unicode classifies as white space.
\<close>

definition py_isspace :: "nat \<Rightarrow> bool" where
  "py_isspace c =
     ((9 \<le> c \<and> c \<le> 13) \<or> (28 \<le> c \<and> c \<le> 32) \<or> c = 133 \<or> c = 160 \<or> c = 5760
      \<or> (8192 \<le> c \<and> c \<le> 8202) \<or> c = 8232 \<or> c = 8233 \<or> c = 8239 \<or> c = 8287
      \<or> c = 12288)"

definition py_strip :: "pystr \<Rightarrow> pystr" where
  "py_strip s = rev (dropWhile py_isspace (rev (dropWhile py_isspace s)))"

text \<open>
  \<open>str.lower()\<close> on the letters \<open>A\<close> to \<open>Z\<close>; the endpoint lowers validated email
  addresses only, which hold no other letter.
\<close>

definition py_lower :: "pystr \<Rightarrow> pystr" where
  "py_lower s = map (\<lambda>c. if 65 \<le> c \<and> c \<le> 90 then c + 32 else c) s"

definition ascii_letter :: "nat \<Rightarrow> bool" where
  "ascii_letter c = ((97 \<le> c \<and> c \<le> 122) \<or> (65 \<le> c \<and> c \<le> 90))"

definition ascii_digit :: "nat \<Rightarrow> bool" where
  "ascii_digit c = (48 \<le> c \<and> c \<le> 57)"

text \<open>
  The fragment of Python's \<open>re\<close> the module uses. A pattern is a sequence of items:
  \<open>^\<close>, \<open>$\<close>, one character of a class, and a class repeated at least \<open>n\<close> times
  (\<open>+\<close> is \<open>n = 1\<close>, \<open>{2,}\<close> is \<open>n = 2\<close>). Without the MULTILINE flag \<open>$\<close> matches
  at the end of the string and just before a newline that ends the string.
  \<open>re_match_here\<close> is the backtracking search from one position; its flag says
  whether the position is the start of the string.
\<close>

datatype re_item = Bol | Eol | One "nat \<Rightarrow> bool" | AtLeast nat "nat \<Rightarrow> bool"

fun re_match_here :: "re_item list \<Rightarrow> bool \<Rightarrow> pystr \<Rightarrow> bool" where
  "re_match_here [] b s = True"
| "re_match_here (Bol # r) b s = (b \<and> re_match_here r b s)"
| "re_match_here (Eol # r) b s = ((s = [] \<or> s = [10]) \<and> re_match_here r b s)"
| "re_match_here (One cls # r) b [] = False"
| "re_match_here (One cls # r) b (x # xs) = (cls x \<and> re_match_here r False xs)"
| "re_match_here (AtLeast 0 cls # r) b [] = re_match_here r b []"
| "re_match_here (AtLeast 0 cls # r) b (x # xs) =
     ((cls x \<and> re_match_here (AtLeast 0 cls # r) False xs) \<or> re_match_here r b (x # xs))"
| "re_match_here (AtLeast (Suc n) cls # r) b [] = False"
| "re_match_here (AtLeast (Suc n) cls # r) b (x # xs) =
     (cls x \<and> re_match_here (AtLeast n cls # r) False xs)"

text \<open>\<open>bool(re.match(pattern, s))\<close>.\<close>

definition re_match :: "re_item list \<Rightarrow> pystr \<Rightarrow> bool" where
  "re_match pattern s = re_match_here pattern True s"

subsection \<open>validate_email\<close>

text \<open>The classes \<open>[a-zA-Z0-9._%+-]\<close> and \<open>[a-zA-Z0-9.-]\<close>.\<close>

definition email_local_char :: "nat \<Rightarrow> bool" where
  "email_local_char c =
     (ascii_letter c \<or> ascii_digit c \<or> c = 46 \<or> c = 95 \<or> c = 37 \<or> c = 43 \<or> c = 45)"

definition email_domain_char :: "nat \<Rightarrow> bool" where
  "email_domain_char c = (ascii_letter c \<or> ascii_digit c \<or> c = 46 \<or> c = 45)"

definition email_pattern :: "re_item list" where
  "email_pattern =
     [Bol, AtLeast 1 email_local_char, One (\<lambda>c. c = 64), AtLeast 1 email_domain_char,
      One (\<lambda>c. c = 46), AtLeast 2 ascii_letter, Eol]"

text \<open>
  \<open>not email or not isinstance(email, str)\<close> holds for every value that is not a
  string, whatever its truth value, and for a string when it is empty.
\<close>

definition validate_email :: "'f json \<Rightarrow> bool" where
  "validate_email email =
     (case email of
        JStr s \<Rightarrow> (if s = [] then False else re_match email_pattern s)
      | _ \<Rightarrow> False)"

text \<open>
  The pattern as the spec reads it: the strings made of a local part, \<open>@\<close>, a domain,
  a dot and a top-level domain of two letters or more, and nothing else.
\<close>

definition matches_email_pattern :: "pystr \<Rightarrow> bool" where
  "matches_email_pattern s =
     (\<exists>local domain tld.
        s = local @ [64] @ domain @ [46] @ tld
        \<and> local \<noteq> [] \<and> list_all email_local_char local
        \<and> domain \<noteq> [] \<and> list_all email_domain_char domain
        \<and> 2 \<le> length tld \<and> list_all ascii_letter tld)"

subsection \<open>validate_name\<close>

text \<open>The class \<open>[a-zA-Z\s'-]\<close>.\<close>

definition name_char :: "nat \<Rightarrow> bool" where
  "name_char c = (ascii_letter c \<or> py_isspace c \<or> c = 39 \<or> c = 45)"

definition name_pattern :: "re_item list" where
  "name_pattern = [Bol, AtLeast 1 name_char, Eol]"

definition validate_name :: "'f json \<Rightarrow> bool \<times> pystr" where
  "validate_name name =
     (case name of
        JStr s \<Rightarrow>
          (if s = [] then (False, lit ''Name must be a non-empty string'')
           else
             (let t = py_strip s
              in if length t < 2 then (False, lit ''Name must be at least 2 characters long'')
                 else if length t > 100 then (False, lit ''Name must not exceed 100 characters'')
                 else if \<not> re_match name_pattern t then
                   (False, lit ''Name contains invalid characters'')
                 else (True, [])))
      | _ \<Rightarrow> (False, lit ''Name must be a non-empty string''))"

subsection \<open>validate_user_data\<close>

text \<open>
  \<open>email.strip()\<close> and \<open>name.strip()\<close> raise AttributeError on a value that is not a
  string; the two checks before them let strings through only.
\<close>

definition validate_user_data ::
  "'f json \<Rightarrow> exc_kind + bool \<times> pystr \<times> 'f pydict" where
  "validate_user_data data =
     (case data of
        JObj d \<Rightarrow>
          (case map_of d (lit ''email'') of
             None \<Rightarrow> Inr (False, lit ''Missing required field: email'', [])
           | Some email \<Rightarrow>
               (case map_of d (lit ''name'') of
                  None \<Rightarrow> Inr (False, lit ''Missing required field: name'', [])
                | Some name \<Rightarrow>
                    (if \<not> validate_email email then Inr (False, lit ''Invalid email format'', [])
                     else
                       (case validate_name name of
                          (False, name_error) \<Rightarrow> Inr (False, name_error, [])
                        | (True, name_error) \<Rightarrow>
                            (case (email, name) of
                               (JStr e, JStr n) \<Rightarrow>
                                 Inr (True, [],
                                      [(lit ''email'', JStr (py_lower (py_strip e))),
                                       (lit ''name'', JStr (py_strip n))])
                             | _ \<Rightarrow> Inl AttributeError)))))
      | _ \<Rightarrow> Inr (False, lit ''Request body must be a JSON object'', []))"

subsection \<open>create_user\<close>

text \<open>
  The request is what \<open>request.get_json()\<close> does: \<open>Inr\<close> the value it returns
  (\<open>JNull\<close> is \<open>None\<close>), \<open>Inl\<close> the text of the exception it raises. The response is
  the dictionary given to \<open>jsonify\<close> and the status code. The log is the state.
\<close>

type_synonym 'f response = "'f pydict \<times> nat"

definition log_call ::
  "level \<Rightarrow> string \<Rightarrow> 'f log_arg list \<Rightarrow> 'f log_record list \<Rightarrow> 'f log_record list" where
  "log_call lvl msg args lg = lg @ [(lvl, msg, args)]"

text \<open>The \<open>except Exception\<close> clause of \<open>create_user\<close>; \<open>e\<close> stands for \<open>str(e)\<close>.\<close>

definition internal_error_response ::
  "'f log_arg \<Rightarrow> 'f log_record list \<Rightarrow> 'f response \<times> 'f log_record list" where
  "internal_error_response e lg =
     (([(lit ''error'', JStr (lit ''Internal server error'')),
        (lit ''message'', JStr (lit ''An unexpected error occurred processing your request''))],
       500),
      log_call ERROR ''Unexpected error in create_user: {}'' [e] lg)"

definition create_user ::
  "pystr + 'f json \<Rightarrow> 'f log_record list \<Rightarrow> 'f response \<times> 'f log_record list" where
  "create_user request lg =
     (case request of
        Inl e \<Rightarrow> internal_error_response (AStr e) lg
      | Inr data \<Rightarrow>
          (if data = JNull then
             (([(lit ''error'', JStr (lit ''Request body required'')),
                (lit ''message'', JStr (lit ''Expected JSON request body with user data''))],
               400),
              log_call WARNING ''Request received with no JSON body'' [] lg)
           else
             (case validate_user_data data of
                Inl e \<Rightarrow> internal_error_response (AExc e) lg
              | Inr (is_valid, error_message, validated_data) \<Rightarrow>
                  (if \<not> is_valid then
                     (([(lit ''error'', JStr (lit ''Validation failed'')),
                        (lit ''message'', JStr error_message)],
                       400),
                      log_call WARNING ''Validation failed: {}'' [AStr error_message] lg)
                   else
                     (case (map_of validated_data (lit ''email''),
                            map_of validated_data (lit ''name'')) of
                        (Some email, Some name) \<Rightarrow>
                          (([(lit ''id'', JInt 1),
                             (lit ''email'', email),
                             (lit ''name'', name),
                             (lit ''created_at'', JStr (lit ''2025-01-04T00:00:00Z''))],
                            201),
                           log_call INFO ''User created successfully: {}'' [AJson email] lg)
                      | _ \<Rightarrow> internal_error_response (AExc KeyError) lg)))))"

section \<open>A float arithmetic and a file system for the examples\<close>

text \<open>
  One float arithmetic, to run the model on examples: floats that are integers, added
  exactly. It agrees with IEEE-754 binary64 on the integers below \<open>2 ^ 53\<close> in
  magnitude, which is all the examples use; beyond, it does not round. \<open>float(i)\<close>
  fails from \<open>2 ^ 1024\<close> on, and \<open>float(s)\<close> converts the strings of decimal
  digits only. The properties below are proved for every arithmetic, not for this one.
\<close>

definition digit_value :: "pystr \<Rightarrow> int option" where
  "digit_value s =
     (if s \<noteq> [] \<and> list_all (\<lambda>c. 48 \<le> c \<and> c \<le> 57) s
      then Some (foldl (\<lambda>a c. 10 * a + (int c - 48)) 0 s)
      else None)"

definition exact_ops :: "int float_ops" where
  "exact_ops =
     \<lparr>float_of_int = (\<lambda>i. if \<bar>i\<bar> < 2 ^ 1024 then Some i else None),
      float_of_str = digit_value,
      float_add = (+)\<rparr>"

text \<open>The users of the spec's well-formed file: \<open>{"users":[{"value":5},{"value":"x"},{"novalue":1}]}\<close>.\<close>

abbreviation example_users :: "'f json list" where
  "example_users \<equiv>
     [JObj [(lit ''value'', JInt 5)],
      JObj [(lit ''value'', JStr (lit ''x''))],
      JObj [(lit ''novalue'', JInt 1)]]"

abbreviation example_data :: "'f pydict" where
  "example_data \<equiv> [(lit ''users'', JList example_users)]"

text \<open>
  A directory with the well-formed file, a file that is not JSON, and nothing else.
\<close>

definition example_files :: "pystr \<Rightarrow> int file_state" where
  "example_files p =
     (if p = lit ''good.json'' then \<lparr>status = IsFile, content = Inr (JObj example_data)\<rparr>
      else if p = lit ''bad.json'' then
        \<lparr>status = IsFile, content = Inl (JSONDecodeError (lit ''Expecting value: line 1 column 1 (char 0)''))\<rparr>
      else \<lparr>status = NotFile, content = Inl FileNotFoundError\<rparr>)"

definition example_world :: "int world" where
  "example_world = \<lparr>files = example_files, log_records = []\<rparr>"

definition example_paths :: "path_arg list" where
  "example_paths = [PathStr (lit ''missing.json''), PathStr (lit ''bad.json''), PathStr (lit ''good.json'')]"

text \<open>
  A directory with two well-formed files that have different summaries, and nothing
  else.
\<close>

definition order_files :: "pystr \<Rightarrow> int file_state" where
  "order_files p =
     (if p = lit ''one.json'' then
        \<lparr>status = IsFile,
         content = Inr (JObj [(lit ''users'', JList [JObj [(lit ''value'', JInt 1)]])])\<rparr>
      else if p = lit ''two.json'' then
        \<lparr>status = IsFile,
         content = Inr (JObj [(lit ''users'',
                     JList [JObj [(lit ''value'', JInt 2)], JObj [(lit ''value'', JInt 2)]])])\<rparr>
      else \<lparr>status = NotFile, content = Inl FileNotFoundError\<rparr>)"

definition order_world :: "int world" where
  "order_world = \<lparr>files = order_files, log_records = []\<rparr>"

section \<open>Notions used to state the properties\<close>

text \<open>
  What one path alone adds to \<open>results\<close> and to \<open>errors\<close>: one iteration of the
  loop, started with both lists empty.
\<close>

definition path_outcome ::
  "'f float_ops \<Rightarrow> 'f world \<Rightarrow> path_arg \<Rightarrow> 'f file_summary list \<times> processing_error list" where
  "path_outcome fo w path =
     (let st = loop_body fo path \<lparr>results = [], errors = [], world = w\<rparr>
      in (results st, errors st))"

text \<open>The text of a path: \<open>str(path)\<close>.\<close>

definition path_text :: "path_arg \<Rightarrow> pystr" where
  "path_text path = (case path of PathStr p \<Rightarrow> p | PathObj s \<Rightarrow> s)"

text \<open>
  The summary of a path that succeeds, read off the files: the path is a string, it
  names a regular file, the file holds a JSON object, and extraction from that object
  gives a summary. Every other path has none.
\<close>

definition summary_of :: "'f float_ops \<Rightarrow> 'f world \<Rightarrow> path_arg \<Rightarrow> 'f file_summary option" where
  "summary_of fo w path =
     (case path of
        PathObj t \<Rightarrow> None
      | PathStr p \<Rightarrow>
          (if status (files w p) = IsFile then
             (case content (files w p) of
                Inr (JObj d) \<Rightarrow>
                  (case fst (extract_user_data fo w d p) of
                     Inr s \<Rightarrow> Some s
                   | Inl e \<Rightarrow> None)
              | _ \<Rightarrow> None)
           else None))"

text \<open>The list \<open>process_user_files\<close> returns for a list of paths.\<close>

definition returned :: "'f float_ops \<Rightarrow> 'f world \<Rightarrow> path_arg list \<Rightarrow> 'f file_summary list" where
  "returned fo w file_paths =
     (case fst (process_user_files fo w (PyList file_paths)) of
        Inr res \<Rightarrow> res
      | Inl e \<Rightarrow> [])"

text \<open>
  The \<open>value\<close> fields of the entries of \<open>users\<close> that are objects, \<open>0\<close> standing for
  an absent field; the floats the coercible ones among them convert to; and their
  sum from left to right. The sum of no float at all is the \<open>int\<close> \<open>0\<close> the
  accumulator starts with; \<open>z\<close> is \<open>float(0)\<close>.
\<close>

definition value_fields :: "'f json list \<Rightarrow> 'f json list" where
  "value_fields us =
     concat (map (\<lambda>u. case u of
                         JObj d \<Rightarrow> [case map_of d (lit ''value'') of None \<Rightarrow> JInt 0 | Some v \<Rightarrow> v]
                       | _ \<Rightarrow> []) us)"

definition coercible :: "'f float_ops \<Rightarrow> 'f json list \<Rightarrow> 'f list" where
  "coercible fo vs = concat (map (\<lambda>v. case py_float fo v of Inr x \<Rightarrow> [x] | Inl e \<Rightarrow> []) vs)"

definition float_sum :: "'f float_ops \<Rightarrow> 'f \<Rightarrow> 'f list \<Rightarrow> 'f pynum" where
  "float_sum fo z xs = (if xs = [] then PyInt 0 else PyFloat (foldl (float_add fo) z xs))"

text \<open>Some \<open>value\<close> field is an \<open>int\<close> too large for a float.\<close>

definition overflows :: "'f float_ops \<Rightarrow> 'f json list \<Rightarrow> bool" where
  "overflows fo vs = list_ex (\<lambda>v. py_float fo v = Inl OverflowError) vs"

text \<open>
  The outcome of one path in closed form: the checks of one iteration in their order,
  read off the files alone.
\<close>

definition outcome_of :: "'f float_ops \<Rightarrow> 'f world \<Rightarrow> path_arg \<Rightarrow> 'f file_summary list \<times> processing_error list" where
  "outcome_of fo w path =
     (case path of
        PathObj s \<Rightarrow> ([], [\<lparr>error_file = PathStr s, error = lit ''Invalid path type''\<rparr>])
      | PathStr p \<Rightarrow>
          (if status (files w p) \<noteq> IsFile
           then ([], [\<lparr>error_file = PathStr p, error = lit ''File does not exist or is not accessible''\<rparr>])
           else (case fst (load_json_file w p) of
                   Inl e \<Rightarrow> ([], [\<lparr>error_file = PathStr (exc_file_path e), error = exc_message e\<rparr>])
                 | Inr None \<Rightarrow> ([], [\<lparr>error_file = PathStr p, error = lit ''Failed to load file''\<rparr>])
                 | Inr (Some d) \<Rightarrow>
                     (case fst (extract_user_data fo w d p) of
                        Inl e \<Rightarrow> ([], [\<lparr>error_file = PathStr (exc_file_path e), error = exc_message e\<rparr>])
                      | Inr r \<Rightarrow> ([r], [])))))"


section \<open>Properties of the batch file aggregator\<close>

subsection \<open>The file system is read only, and results do not depend on the log\<close>

lemma files_logger: "files (logger lvl msg args w) = files w"
  by (simp add: logger_def)

lemma validate_file_path_files: "files (snd (validate_file_path w p)) = files w"
  by (simp add: validate_file_path_def files_logger split: path_status.splits)

lemma validate_file_path_fst: "fst (validate_file_path w p) = (status (files w p) = IsFile)"
  by (simp add: validate_file_path_def split: path_status.splits)

lemma load_json_file_files: "files (snd (load_json_file w p)) = files w"
  by (simp add: load_json_file_def files_logger Let_def split: sum.splits json.splits read_error.splits)

lemma load_json_file_cong:
  "files w = files w' \<Longrightarrow> fst (load_json_file w p) = fst (load_json_file w' p)"
  by (simp add: load_json_file_def Let_def split: sum.splits json.splits read_error.splits)

lemma load_json_file_not_None: "fst (load_json_file w p) \<noteq> Inr None"
  by (simp add: load_json_file_def Let_def split: sum.splits json.splits read_error.splits)

lemma sum_users_files: "files (snd (sum_users fo fp xs t w)) = files w"
  by (induction fo fp xs t w rule: sum_users.induct)
     (auto simp: files_logger Let_def split: json.splits sum.splits)

lemma sum_users_cong: "fst (sum_users fo fp xs t w) = fst (sum_users fo fp xs t w')"
proof (induction fo fp xs t w arbitrary: w' rule: sum_users.induct)
  case (1 fo fp tot w)
  show ?case by simp
next
  case (2 fo fp idx user rest tot w)
  show ?case
    by (cases user) (auto simp: Let_def split: sum.splits intro: 2)
qed

lemma extract_user_data_files: "files (snd (extract_user_data fo w d p)) = files w"
  by (auto simp: extract_user_data_def files_logger Let_def split: option.splits json.splits prod.splits 
      dest: arg_cong[where f="\<lambda>x. files (snd x)"] simp: sum_users_files)

lemma extract_user_data_fst:
  "fst (extract_user_data fo w d p) =
     (case (case map_of d (lit ''users'') of None \<Rightarrow> JList [] | Some u \<Rightarrow> u) of
        JList us \<Rightarrow>
          (case fst (sum_users fo p (enumerate 0 us) (PyInt 0) w) of
             Some tot \<Rightarrow> Inr \<lparr>summary_file = p, user_count = length us, total_value = tot\<rparr>
           | None \<Rightarrow> Inl (FileProcessingError p (lit ''Data extraction error: '' @ overflow_text)))
      | _ \<Rightarrow> Inl (FileProcessingError p (39 # lit ''users'' @ 39 # lit '' field must be a list'')))"
proof -
  have *: "fst (case sum_users fo p ixs t w1 of
                 (Some tot, w2) \<Rightarrow> (f tot, w2)
               | (None, w2) \<Rightarrow> (g, h w2)) =
           (case fst (sum_users fo p ixs t w) of Some tot \<Rightarrow> f tot | None \<Rightarrow> g)" 
    for ixs t w1 f g and h :: "'a world \<Rightarrow> 'a world"
    using sum_users_cong[of fo p ixs t w1 w]
    by (cases "sum_users fo p ixs t w1") (auto split: option.splits)
  show ?thesis
  proof (cases "map_of d (lit ''users'')")
    case None
    then show ?thesis
      by (simp add: extract_user_data_def enumerate_eq_zip)
  next
    case (Some u)
    then show ?thesis
      by (cases u) (simp_all add: extract_user_data_def *)
  qed
qed

lemma extract_user_data_cong:
  "fst (extract_user_data fo w d p) = fst (extract_user_data fo w' d p)"
  unfolding extract_user_data_fst
  using sum_users_cong[of fo p _ "PyInt 0" w w']
  by (simp split: json.splits)

lemma loop_body_closed:
  "results (loop_body fo path st) = results st @ fst (outcome_of fo (world st) path)
   \<and> errors (loop_body fo path st) = errors st @ snd (outcome_of fo (world st) path)
   \<and> files (world (loop_body fo path st)) = files (world st)"
proof (cases path)
  case (PathObj s)
  then show ?thesis
    by (simp add: loop_body_def try_body_def outcome_of_def files_logger)
next
  case (PathStr p)
  obtain b w1 where v: "validate_file_path (world st) p = (b, w1)"
    by (cases "validate_file_path (world st) p")
  have b: "b = (status (files (world st) p) = IsFile)" and w1: "files w1 = files (world st)"
    using validate_file_path_fst[of "world st" p] validate_file_path_files[of "world st" p] v
    by simp_all
  show ?thesis
  proof (cases b)
    case False
    then show ?thesis using PathStr v b w1
      by (simp add: loop_body_def try_body_def outcome_of_def files_logger)
  next
    case True
    obtain l w2 where l: "load_json_file w1 p = (l, w2)"
      by (cases "load_json_file w1 p")
    have l': "fst (load_json_file (world st) p) = l" and w2: "files w2 = files (world st)"
      using load_json_file_cong[OF w1, of p] load_json_file_files[of w1 p] l w1 by simp_all
    show ?thesis
    proof (cases l)
      case (Inl e)
      then show ?thesis using PathStr v b True l l' w2
        by (simp add: loop_body_def try_body_def outcome_of_def)
    next
      case (Inr od)
      show ?thesis
      proof (cases od)
        case None
        then show ?thesis using PathStr v b True l l' w2 Inr
          by (simp add: loop_body_def try_body_def outcome_of_def)
      next
        case (Some d)
        obtain x w3 where x: "extract_user_data fo w2 d p = (x, w3)"
          by (cases "extract_user_data fo w2 d p")
        have x': "fst (extract_user_data fo (world st) d p) = x" and w3: "files w3 = files (world st)"
          using extract_user_data_cong[of fo w2 d p "world st"] extract_user_data_files[of fo w2 d p] x w2
          by simp_all
        show ?thesis using PathStr v b True l l' Inr Some x x' w3
          by (cases x) (simp_all add: loop_body_def try_body_def outcome_of_def files_logger)
      qed
    qed
  qed
qed

lemma outcome_of_cong:
  assumes "files w = files w'"
  shows "outcome_of fo w path = outcome_of fo w' path"
proof -
  have l: "fst (load_json_file w p) = fst (load_json_file w' p)" for p
    by (rule load_json_file_cong[OF assms])
  have x: "fst (extract_user_data fo w d p) = fst (extract_user_data fo w' d p)" for d p
    by (rule extract_user_data_cong)
  show ?thesis
    unfolding outcome_of_def l assms x[of _ _] ..
qed

lemma path_outcome_closed: "path_outcome fo w path = outcome_of fo w path"
  using loop_body_closed[of fo path "\<lparr>results = [], errors = [], world = w\<rparr>"]
  by (simp add: path_outcome_def Let_def prod_eq_iff)

lemma for_paths_closed:
  "results (for_paths fo ps st) = results st @ concat (map (\<lambda>p. fst (path_outcome fo (world st) p)) ps)
   \<and> errors (for_paths fo ps st) = errors st @ concat (map (\<lambda>p. snd (path_outcome fo (world st) p)) ps)
   \<and> files (world (for_paths fo ps st)) = files (world st)"
proof (induction ps arbitrary: st)
  case Nil
  show ?case by simp
next
  case (Cons p ps)
  have f: "files (world (loop_body fo p st)) = files (world st)"
    using loop_body_closed[of fo p st] by simp
  have c: "path_outcome fo (world (loop_body fo p st)) q = path_outcome fo (world st) q" for q
    using outcome_of_cong[OF f] by (simp add: path_outcome_closed)
  show ?case
    using Cons.IH[of "loop_body fo p st"] loop_body_closed[of fo p st]
    by (simp add: c) (simp add: path_outcome_closed)
qed

subsection \<open>The outcome of each path\<close>

lemma load_json_file_error_path:
  "fst (load_json_file w p) = Inl e \<Longrightarrow> exc_file_path e = p"
  by (auto simp: load_json_file_def Let_def split: sum.splits json.splits read_error.splits)

lemma extract_user_data_error_path:
  "fst (extract_user_data fo w d p) = Inl e \<Longrightarrow> exc_file_path e = p"
  by (auto simp: extract_user_data_fst split: json.splits option.splits)

lemma extract_user_data_summary_file:
  "fst (extract_user_data fo w d p) = Inr s \<Longrightarrow> summary_file s = p"
  by (auto simp: extract_user_data_fst split: json.splits option.splits)

lemma path_outcome_one:
  "(\<exists>s. path_outcome fo w path = ([s], []) \<and> path = PathStr (summary_file s))
   \<or> (\<exists>e. path_outcome fo w path = ([], [e]) \<and> error_file e = PathStr (path_text path))"
proof (cases path)
  case (PathObj s)
  then show ?thesis by (simp add: path_outcome_closed outcome_of_def path_text_def)
next
  case (PathStr p)
  show ?thesis
  proof (cases "fst (load_json_file w p)")
    case (Inl e)
    then show ?thesis using PathStr load_json_file_error_path[OF Inl]
      by (simp add: path_outcome_closed outcome_of_def path_text_def)
  next
    case (Inr od)
    show ?thesis
    proof (cases od)
      case None
      then show ?thesis using PathStr Inr
        by (simp add: path_outcome_closed outcome_of_def path_text_def)
    next
      case (Some d)
      show ?thesis
      proof (cases "fst (extract_user_data fo w d p)")
        case (Inl e)
        then show ?thesis using PathStr Inr Some extract_user_data_error_path[OF Inl]
          by (simp add: path_outcome_closed outcome_of_def path_text_def)
      next
        case r: (Inr r)
        then show ?thesis using PathStr Inr Some extract_user_data_summary_file[OF r]
          by (simp add: path_outcome_closed outcome_of_def path_text_def)
      qed
    qed
  qed
qed

lemma run_loop_closed:
  "results (run_loop fo w ps) = concat (map (\<lambda>p. fst (path_outcome fo w p)) ps)
   \<and> errors (run_loop fo w ps) = concat (map (\<lambda>p. snd (path_outcome fo w p)) ps)
   \<and> files (world (run_loop fo w ps)) = files w"
proof -
  let ?w = "logger INFO ''Processing {} files'' [ANat (length ps)] w"
  have "path_outcome fo ?w p = path_outcome fo w p" for p
    using outcome_of_cong[of ?w w fo p] by (simp add: path_outcome_closed files_logger)
  then show ?thesis
    using for_paths_closed[of fo ps "\<lparr>results = [], errors = [], world = ?w\<rparr>"]
    by (simp add: run_loop_def files_logger)
qed

lemma process_user_files_fst:
  "fst (process_user_files fo w (PyList ps)) = Inr (results (run_loop fo w ps))"
  by (simp add: process_user_files_def Let_def run_loop_def)

lemma length_outcomes:
  "length (concat (map (\<lambda>p. fst (path_outcome fo w p)) ps))
   + length (concat (map (\<lambda>p. snd (path_outcome fo w p)) ps)) = length ps"
proof (induction ps)
  case Nil
  show ?case by simp
next
  case (Cons p ps)
  have "length (fst (path_outcome fo w p)) + length (snd (path_outcome fo w p)) = 1"
    using path_outcome_one[of fo w p] by (elim disjE exE conjE) simp_all
  then show ?case using Cons.IH by simp
qed

lemma returned_closed: "returned fo w ps = concat (map (\<lambda>p. fst (path_outcome fo w p)) ps)"
  using run_loop_closed[of fo w ps]
  by (simp add: returned_def process_user_files_fst)

lemma returned_single: "returned fo w [path] = fst (path_outcome fo w path)"
  by (simp add: returned_closed)

lemma files_process_user_files: "files (snd (process_user_files fo w arg)) = files w"
proof (cases arg)
  case NotAList
  then show ?thesis by (simp add: process_user_files_def)
next
  case (PyList ps)
  then show ?thesis using run_loop_closed[of fo w ps]
    by (simp add: process_user_files_def Let_def files_logger)
qed

lemma process_user_files_cong:
  assumes "files w' = files w"
  shows "fst (process_user_files fo w' arg) = fst (process_user_files fo w arg)"
proof (cases arg)
  case NotAList
  then show ?thesis by (simp add: process_user_files_def)
next
  case (PyList ps)
  have "path_outcome fo w' p = path_outcome fo w p" for p
    using outcome_of_cong[OF assms] by (simp add: path_outcome_closed)
  then show ?thesis using PyList run_loop_closed[of fo w ps] run_loop_closed[of fo w' ps]
    by (simp add: process_user_files_fst)
qed

subsection \<open>The sum over the users\<close>


lemma py_float_cases:
  "(\<exists>x. py_float fo v = Inr x) \<or> py_float fo v = Inl TypeError \<or> py_float fo v = Inl ValueError
     \<or> py_float fo v = Inl OverflowError"
  by (cases v) (auto split: option.splits)

lemma value_fields_Nil: "value_fields [] = []"
  by (simp add: value_fields_def)

lemma value_fields_obj:
  "value_fields (JObj d # us) =
     (case map_of d (lit ''value'') of None \<Rightarrow> JInt 0 | Some v \<Rightarrow> v) # value_fields us"
  by (simp add: value_fields_def)

lemma value_fields_other: "\<nexists>d. u = JObj d \<Longrightarrow> value_fields (u # us) = value_fields us"
  by (cases u) (simp_all add: value_fields_def)

lemma coercible_Nil: "coercible fo [] = []"
  by (simp add: coercible_def)

lemma coercible_Inr: "py_float fo v = Inr x \<Longrightarrow> coercible fo (v # vs) = x # coercible fo vs"
  by (simp add: coercible_def)

lemma coercible_Inl: "py_float fo v = Inl e \<Longrightarrow> coercible fo (v # vs) = coercible fo vs"
  by (simp add: coercible_def)

lemma overflows_Cons:
  "overflows fo (v # vs) = (py_float fo v = Inl OverflowError \<or> overflows fo vs)"
  by (simp add: overflows_def)

lemma sum_users_overflow:
  "overflows fo (value_fields (map snd ixs)) \<Longrightarrow> fst (sum_users fo fp ixs t w) = None"
proof (induction ixs arbitrary: t w)
  case Nil
  then show ?case by (simp add: overflows_def value_fields_Nil)
next
  case (Cons a ixs)
  obtain idx user where a: "a = (idx, user)" by (cases a)
  show ?case
  proof (cases "\<exists>d. user = JObj d")
    case True
    then obtain d where d: "user = JObj d" by blast
    let ?v = "(case map_of d (lit ''value'') of None \<Rightarrow> JInt 0 | Some v \<Rightarrow> v)"
    show ?thesis
    proof (cases "py_float fo ?v = Inl OverflowError")
      case True
      then show ?thesis using a d by (simp add: Let_def)
    next
      case False
      then have ov: "overflows fo (value_fields (map snd ixs))"
        using Cons.prems a d by (simp add: value_fields_obj overflows_Cons)
      show ?thesis using a d Cons.IH[OF ov]
        by (simp add: Let_def split: sum.splits)
    qed
  next
    case False
    then have ov: "overflows fo (value_fields (map snd ixs))"
      using Cons.prems a by (simp add: value_fields_other)
    show ?thesis using a False Cons.IH[OF ov] by (cases user) simp_all
  qed
qed

lemma sum_users_float:
  "\<not> overflows fo (value_fields (map snd ixs)) \<Longrightarrow>
   fst (sum_users fo fp ixs (PyFloat y) w) =
     Some (PyFloat (foldl (float_add fo) y (coercible fo (value_fields (map snd ixs)))))"
proof (induction ixs arbitrary: y w)
  case Nil
  show ?case by (simp add: coercible_Nil value_fields_Nil)
next
  case (Cons a ixs)
  obtain idx user where a: "a = (idx, user)" by (cases a)
  show ?case
  proof (cases "\<exists>d. user = JObj d")
    case True
    then obtain d where d: "user = JObj d" by blast
    let ?v = "(case map_of d (lit ''value'') of None \<Rightarrow> JInt 0 | Some v \<Rightarrow> v)"
    have no: "py_float fo ?v \<noteq> Inl OverflowError"
      and rest: "\<not> overflows fo (value_fields (map snd ixs))"
      using Cons.prems a d by (simp_all add: value_fields_obj overflows_Cons)
    from py_float_cases[of fo ?v] no
    consider x where "py_float fo ?v = Inr x"
      | e where "py_float fo ?v = Inl e" "e = TypeError \<or> e = ValueError"
      by blast
    then show ?thesis
    proof cases
      case 1
      then show ?thesis using a d Cons.IH[OF rest]
        by (simp add: Let_def value_fields_obj coercible_Inr)
    next
      case 2
      then show ?thesis using a d Cons.IH[OF rest]
        by (auto simp add: Let_def value_fields_obj coercible_Inl)
    qed
  next
    case False
    then have rest: "\<not> overflows fo (value_fields (map snd ixs))"
      using Cons.prems a by (simp add: value_fields_other)
    show ?thesis using a False Cons.IH[OF rest]
      by (cases user) (simp_all add: value_fields_other)
  qed
qed

lemma sum_users_int0:
  assumes z: "float_of_int fo 0 = Some z"
  shows "\<not> overflows fo (value_fields (map snd ixs)) \<Longrightarrow>
   fst (sum_users fo fp ixs (PyInt 0) w) =
     Some (float_sum fo z (coercible fo (value_fields (map snd ixs))))"
proof (induction ixs arbitrary: w)
  case Nil
  show ?case by (simp add: coercible_Nil value_fields_Nil float_sum_def)
next
  case (Cons a ixs)
  obtain idx user where a: "a = (idx, user)" by (cases a)
  show ?case
  proof (cases "\<exists>d. user = JObj d")
    case True
    then obtain d where d: "user = JObj d" by blast
    let ?v = "(case map_of d (lit ''value'') of None \<Rightarrow> JInt 0 | Some v \<Rightarrow> v)"
    have no: "py_float fo ?v \<noteq> Inl OverflowError"
      and rest: "\<not> overflows fo (value_fields (map snd ixs))"
      using Cons.prems a d by (simp_all add: value_fields_obj overflows_Cons)
    from py_float_cases[of fo ?v] no
    consider x where "py_float fo ?v = Inr x"
      | e where "py_float fo ?v = Inl e" "e = TypeError \<or> e = ValueError"
      by blast
    then show ?thesis
    proof cases
      case 1
      then show ?thesis using a d z sum_users_float[OF rest]
        by (simp add: Let_def value_fields_obj coercible_Inr float_sum_def)
    next
      case 2
      then show ?thesis using a d Cons.IH[OF rest]
        by (auto simp add: Let_def value_fields_obj coercible_Inl)
    qed
  next
    case False
    then have rest: "\<not> overflows fo (value_fields (map snd ixs))"
      using Cons.prems a by (simp add: value_fields_other)
    show ?thesis using a False Cons.IH[OF rest]
      by (cases user) (simp_all add: value_fields_other)
  qed
qed

lemma map_snd_enumerate: "map snd (enumerate n xs) = xs"
  by (simp add: enumerate_eq_zip)

lemma extract_user_data_list:
  assumes z: "float_of_int fo 0 = Some z" and us: "map_of data (lit ''users'') = Some (JList us)"
  shows "fst (extract_user_data fo w data fp) =
     (if overflows fo (value_fields us)
      then Inl (FileProcessingError fp (lit ''Data extraction error: '' @ overflow_text))
      else Inr \<lparr>summary_file = fp, user_count = length us,
                total_value = float_sum fo z (coercible fo (value_fields us))\<rparr>)"
proof (cases "overflows fo (value_fields us)")
  case True
  then have "fst (sum_users fo fp (enumerate 0 us) (PyInt 0) w) = None"
    by (simp add: sum_users_overflow map_snd_enumerate)
  then obtain w2 where "sum_users fo fp (enumerate 0 us) (PyInt 0) w = (None, w2)"
    by (cases "sum_users fo fp (enumerate 0 us) (PyInt 0) w") simp
  then show ?thesis using us True
    by (simp add: extract_user_data_def)
next
  case False
  then have "fst (sum_users fo fp (enumerate 0 us) (PyInt 0) w) =
     Some (float_sum fo z (coercible fo (value_fields us)))"
    using sum_users_int0[OF z, of "enumerate 0 us" fp w] by (simp add: map_snd_enumerate)
  then obtain w2 where "sum_users fo fp (enumerate 0 us) (PyInt 0) w =
      (Some (float_sum fo z (coercible fo (value_fields us))), w2)"
    by (cases "sum_users fo fp (enumerate 0 us) (PyInt 0) w") simp
  then show ?thesis using us False
    by (simp add: extract_user_data_def)
qed

subsection \<open>The argument of process_user_files\<close>

text \<open>
  C3: an argument that is not a list makes \<open>process_user_files\<close> raise ValueError to
  its caller, with the log untouched; the empty list is accepted and gives the empty
  result, with one warning in the log and no exception.
\<close>

theorem process_user_files_argument:
  "process_user_files fo w NotAList = (Inl (lit ''file_paths must be a list''), w)
   \<and> process_user_files fo w (PyList []) =
       (Inr [], logger WARNING ''Empty file_paths list provided'' [] w)"
  by (simp add: process_user_files_def)

subsection \<open>One outcome for each path\<close>

text \<open>
  C1: every path, alone, adds exactly one record: either one summary to \<open>results\<close>
  and nothing to \<open>errors\<close>, or one error record to \<open>errors\<close> and nothing to
  \<open>results\<close>; the record names the path. After the loop \<open>results\<close> and \<open>errors\<close>
  hold the records of all the paths, in order, so that the two lengths add up to
  the number of paths: no failure keeps a later path from being processed. The
  function returns \<open>results\<close>.
\<close>

theorem one_outcome_per_path:
  "(\<forall>path. (\<exists>s. path_outcome fo w path = ([s], []) \<and> path = PathStr (summary_file s))
          \<or> (\<exists>e. path_outcome fo w path = ([], [e]) \<and> error_file e = PathStr (path_text path)))
   \<and> results (run_loop fo w file_paths) = concat (map (\<lambda>p. fst (path_outcome fo w p)) file_paths)
   \<and> errors (run_loop fo w file_paths) = concat (map (\<lambda>p. snd (path_outcome fo w p)) file_paths)
   \<and> length (results (run_loop fo w file_paths)) + length (errors (run_loop fo w file_paths))
       = length file_paths
   \<and> fst (process_user_files fo w (PyList file_paths)) = Inr (results (run_loop fo w file_paths))"
proof (intro conjI allI)
  fix path
  show "(\<exists>s. path_outcome fo w path = ([s], []) \<and> path = PathStr (summary_file s))
          \<or> (\<exists>e. path_outcome fo w path = ([], [e]) \<and> error_file e = PathStr (path_text path))"
    by (rule path_outcome_one)
next
  show "results (run_loop fo w file_paths) = concat (map (\<lambda>p. fst (path_outcome fo w p)) file_paths)"
    using run_loop_closed[of fo w file_paths] by blast
next
  show "errors (run_loop fo w file_paths) = concat (map (\<lambda>p. snd (path_outcome fo w p)) file_paths)"
    using run_loop_closed[of fo w file_paths] by blast
next
  show "length (results (run_loop fo w file_paths)) + length (errors (run_loop fo w file_paths))
       = length file_paths"
    using run_loop_closed[of fo w file_paths] length_outcomes[of fo w file_paths] by simp
next
  show "fst (process_user_files fo w (PyList file_paths)) = Inr (results (run_loop fo w file_paths))"
    by (rule process_user_files_fst)
qed

subsection \<open>Input order\<close>

lemma load_json_file_object:
  "content (files w fp) = Inr (JObj data) \<Longrightarrow> fst (load_json_file w fp) = Inr (Some data)"
  by (simp add: load_json_file_def)

lemma load_json_file_not_object:
  "\<nexists>d. content (files w p) = Inr (JObj d) \<Longrightarrow> \<exists>e. fst (load_json_file w p) = Inl e"
  by (auto simp: load_json_file_def Let_def split: sum.splits json.splits read_error.splits)

lemma outcome_of_summary_of:
  "fst (outcome_of fo w path) = (case summary_of fo w path of Some s \<Rightarrow> [s] | None \<Rightarrow> [])"
proof (cases path)
  case (PathObj t)
  then show ?thesis by (simp add: outcome_of_def summary_of_def)
next
  case (PathStr p)
  show ?thesis
  proof (cases "status (files w p) = IsFile")
    case False
    then show ?thesis using PathStr by (simp add: outcome_of_def summary_of_def)
  next
    case True
    show ?thesis
    proof (cases "\<exists>d. content (files w p) = Inr (JObj d)")
      case False
      then obtain e where e: "fst (load_json_file w p) = Inl e"
        using load_json_file_not_object[of w p] by blast
      have "(case content (files w p) of
                Inr (JObj d) \<Rightarrow>
                  (case fst (extract_user_data fo w d p) of
                     Inr s \<Rightarrow> Some s
                   | Inl e \<Rightarrow> None)
              | _ \<Rightarrow> None) = None"
        using False by (auto split: sum.splits json.splits)
      then show ?thesis using PathStr True e by (simp add: outcome_of_def summary_of_def)
    next
      case d: True
      then obtain d where d: "content (files w p) = Inr (JObj d)" by blast
      then have l: "fst (load_json_file w p) = Inr (Some d)" by (rule load_json_file_object)
      show ?thesis using PathStr True d l
        by (simp add: outcome_of_def summary_of_def split: sum.splits)
    qed
  qed
qed

lemma concat_map_option:
  "concat (map (\<lambda>x. case f x of Some s \<Rightarrow> [s] | None \<Rightarrow> []) xs) = List.map_filter f xs"
  by (induction xs) (simp_all add: map_filter_simps split: option.splits)

text \<open>
  C9: the list returned for a list of paths is exactly the summaries of the paths
  that succeed, one for each occurrence, in the order of the paths; which paths
  succeed and what their summaries are is read off the files. The same list is the
  concatenation, in the order of the paths, of the lists returned for each path
  alone; the list of a path alone is empty or holds the one summary of that path,
  and it holds the summary of every path that succeeds.
\<close>

theorem returned_in_input_order:
  "returned fo w file_paths = List.map_filter (summary_of fo w) file_paths
   \<and> returned fo w file_paths = concat (map (\<lambda>path. fst (outcome_of fo w path)) file_paths)
   \<and> returned fo w file_paths = concat (map (\<lambda>path. returned fo w [path]) file_paths)
   \<and> (\<forall>path. returned fo w [path] = []
            \<or> (\<exists>s. returned fo w [path] = [s] \<and> path = PathStr (summary_file s)))
   \<and> (\<forall>path. summary_of fo w path = None
            \<or> (\<exists>s. summary_of fo w path = Some s \<and> path = PathStr (summary_file s)
                   \<and> returned fo w [path] = [s]))"
proof (intro conjI allI)
  show c: "returned fo w file_paths = concat (map (\<lambda>path. fst (outcome_of fo w path)) file_paths)"
    using returned_closed[of fo w file_paths] by (simp add: path_outcome_closed)
  show "returned fo w file_paths = List.map_filter (summary_of fo w) file_paths"
    unfolding c outcome_of_summary_of by (rule concat_map_option)
  show "returned fo w file_paths = concat (map (\<lambda>path. returned fo w [path]) file_paths)"
    unfolding returned_single by (rule returned_closed)
next
  fix path
  show "returned fo w [path] = []
            \<or> (\<exists>s. returned fo w [path] = [s] \<and> path = PathStr (summary_file s))"
    unfolding returned_single
    using path_outcome_one[of fo w path] by (elim disjE exE conjE) simp_all
next
  fix path
  have r: "returned fo w [path] = (case summary_of fo w path of Some s \<Rightarrow> [s] | None \<Rightarrow> [])"
    unfolding returned_single path_outcome_closed by (rule outcome_of_summary_of)
  show "summary_of fo w path = None
            \<or> (\<exists>s. summary_of fo w path = Some s \<and> path = PathStr (summary_file s)
                   \<and> returned fo w [path] = [s])"
  proof (cases "summary_of fo w path")
    case None
    then show ?thesis by simp
  next
    case (Some s)
    then have "returned fo w [path] = [s]" using r by simp
    moreover have "path = PathStr (summary_file s)"
      using path_outcome_one[of fo w path] \<open>returned fo w [path] = [s]\<close>
      unfolding returned_single by (elim disjE exE conjE) simp_all
    ultimately show ?thesis using Some by simp
  qed
qed

text \<open>
  Two files with different summaries around a missing one, in both orders, and one
  file given twice.
\<close>

lemma order_files_simps:
  "order_files (lit ''one.json'') =
     \<lparr>status = IsFile,
      content = Inr (JObj [(lit ''users'', JList [JObj [(lit ''value'', JInt 1)]])])\<rparr>"
  "order_files (lit ''two.json'') =
     \<lparr>status = IsFile,
      content = Inr (JObj [(lit ''users'',
                  JList [JObj [(lit ''value'', JInt 2)], JObj [(lit ''value'', JInt 2)]])])\<rparr>"
  "order_files (lit ''none.json'') = \<lparr>status = NotFile, content = Inl FileNotFoundError\<rparr>"
  by (simp_all add: order_files_def lit_def)

lemma order_extract:
  "fst (extract_user_data exact_ops w [(lit ''users'', JList [JObj [(lit ''value'', JInt 1)]])] fp) =
     Inr \<lparr>summary_file = fp, user_count = 1, total_value = PyFloat 1\<rparr>"
  "fst (extract_user_data exact_ops w
          [(lit ''users'', JList [JObj [(lit ''value'', JInt 2)], JObj [(lit ''value'', JInt 2)]])] fp) =
     Inr \<lparr>summary_file = fp, user_count = 2, total_value = PyFloat 4\<rparr>"
  by (simp_all add: extract_user_data_def exact_ops_def enumerate_eq_zip
       Let_def lit_def logger_def split: prod.splits)

lemma order_summary_of:
  "summary_of exact_ops order_world (PathStr (lit ''one.json'')) =
     Some \<lparr>summary_file = lit ''one.json'', user_count = 1, total_value = PyFloat 1\<rparr>"
  "summary_of exact_ops order_world (PathStr (lit ''two.json'')) =
     Some \<lparr>summary_file = lit ''two.json'', user_count = 2, total_value = PyFloat 4\<rparr>"
  "summary_of exact_ops order_world (PathStr (lit ''none.json'')) = None"
  by (simp_all add: summary_of_def order_world_def order_files_simps order_extract)

theorem returned_in_input_order_witness:
  "returned exact_ops order_world
     [PathStr (lit ''two.json''), PathStr (lit ''none.json''), PathStr (lit ''one.json'')] =
     [\<lparr>summary_file = lit ''two.json'', user_count = 2, total_value = PyFloat 4\<rparr>,
      \<lparr>summary_file = lit ''one.json'', user_count = 1, total_value = PyFloat 1\<rparr>]
   \<and> returned exact_ops order_world
     [PathStr (lit ''one.json''), PathStr (lit ''none.json''), PathStr (lit ''two.json'')] =
     [\<lparr>summary_file = lit ''one.json'', user_count = 1, total_value = PyFloat 1\<rparr>,
      \<lparr>summary_file = lit ''two.json'', user_count = 2, total_value = PyFloat 4\<rparr>]
   \<and> returned exact_ops order_world
     [PathStr (lit ''one.json''), PathStr (lit ''one.json'')] =
     [\<lparr>summary_file = lit ''one.json'', user_count = 1, total_value = PyFloat 1\<rparr>,
      \<lparr>summary_file = lit ''one.json'', user_count = 1, total_value = PyFloat 1\<rparr>]"
  using returned_in_input_order[of exact_ops order_world
      "[PathStr (lit ''two.json''), PathStr (lit ''none.json''), PathStr (lit ''one.json'')]"]
    returned_in_input_order[of exact_ops order_world
      "[PathStr (lit ''one.json''), PathStr (lit ''none.json''), PathStr (lit ''two.json'')]"]
    returned_in_input_order[of exact_ops order_world
      "[PathStr (lit ''one.json''), PathStr (lit ''one.json'')]"]
  by (simp add: map_filter_simps order_summary_of)

subsection \<open>Determinism\<close>

text \<open>
  C8: a run leaves the files as they are, a second run from the world the first one
  leaves returns what the first returned, and so does a run from any world with
  the same files, whatever its log.
\<close>

theorem process_user_files_deterministic:
  "files (snd (process_user_files fo w arg)) = files w
   \<and> fst (process_user_files fo (snd (process_user_files fo w arg)) arg)
       = fst (process_user_files fo w arg)
   \<and> (files w' = files w \<longrightarrow> fst (process_user_files fo w' arg) = fst (process_user_files fo w arg))"
proof (intro conjI impI)
  show f: "files (snd (process_user_files fo w arg)) = files w"
    by (rule files_process_user_files)
  show "fst (process_user_files fo (snd (process_user_files fo w arg)) arg)
       = fst (process_user_files fo w arg)"
    by (rule process_user_files_cong[OF f])
  show "fst (process_user_files fo w' arg) = fst (process_user_files fo w arg)" if "files w' = files w"
    by (rule process_user_files_cong[OF that])
qed

theorem process_user_files_deterministic_witness:
  "files (example_world\<lparr>log_records := [(INFO, ''an earlier run'', [])]\<rparr>) = files example_world
   \<and> fst (process_user_files exact_ops (example_world\<lparr>log_records := [(INFO, ''an earlier run'', [])]\<rparr>)
            (PyList example_paths))
       = fst (process_user_files exact_ops example_world (PyList example_paths))"
  using process_user_files_deterministic
    [of exact_ops example_world "PyList example_paths"
        "example_world\<lparr>log_records := [(INFO, ''an earlier run'', [])]\<rparr>"]
  by simp

subsection \<open>The users entry\<close>

lemma extract_user_data_no_users:
  "map_of data (lit ''users'') = None \<Longrightarrow>
   fst (extract_user_data fo w data fp) = Inr \<lparr>summary_file = fp, user_count = 0, total_value = PyInt 0\<rparr>"
  by (simp add: extract_user_data_fst enumerate_eq_zip)

lemma extract_user_data_users_not_list:
  "map_of data (lit ''users'') = Some u \<Longrightarrow> \<nexists>us. u = JList us \<Longrightarrow>
   fst (extract_user_data fo w data fp) =
     Inl (FileProcessingError fp (39 # lit ''users'' @ 39 # lit '' field must be a list''))"
  by (cases u) (simp_all add: extract_user_data_fst)

text \<open>
  C4: when the object has no \<open>users\<close> key, extraction gives a summary with count 0 and
  total 0, and the file adds that summary to the results and no error; when \<open>users\<close>
  is present and is not a list, extraction raises the FileProcessingError with the
  reason \<open>'users' field must be a list\<close>, and the file adds one error record with that
  reason and no summary.
\<close>

theorem extract_user_data_users_entry:
  "(map_of data (lit ''users'') = None \<longrightarrow>
      fst (extract_user_data fo w data fp) =
        Inr \<lparr>summary_file = fp, user_count = 0, total_value = PyInt 0\<rparr>)
   \<and> (map_of data (lit ''users'') = Some u \<and> (\<nexists>us. u = JList us) \<longrightarrow>
      fst (extract_user_data fo w data fp) =
        Inl (FileProcessingError fp (39 # lit ''users'' @ 39 # lit '' field must be a list'')))
   \<and> (status (files w fp) = IsFile \<and> content (files w fp) = Inr (JObj data)
        \<and> map_of data (lit ''users'') = None \<longrightarrow>
      path_outcome fo w (PathStr fp) =
        ([\<lparr>summary_file = fp, user_count = 0, total_value = PyInt 0\<rparr>], []))
   \<and> (status (files w fp) = IsFile \<and> content (files w fp) = Inr (JObj data)
        \<and> map_of data (lit ''users'') = Some u \<and> (\<nexists>us. u = JList us) \<longrightarrow>
      path_outcome fo w (PathStr fp) =
        ([], [\<lparr>error_file = PathStr fp,
               error = 39 # lit ''users'' @ 39 # lit '' field must be a list''\<rparr>]))"
proof (intro conjI impI)
  assume "map_of data (lit ''users'') = None"
  then show "fst (extract_user_data fo w data fp) =
        Inr \<lparr>summary_file = fp, user_count = 0, total_value = PyInt 0\<rparr>"
    by (rule extract_user_data_no_users)
next
  assume "map_of data (lit ''users'') = Some u \<and> (\<nexists>us. u = JList us)"
  then show "fst (extract_user_data fo w data fp) =
        Inl (FileProcessingError fp (39 # lit ''users'' @ 39 # lit '' field must be a list''))"
    using extract_user_data_users_not_list[of data u fo w fp] by blast
next
  assume a: "status (files w fp) = IsFile \<and> content (files w fp) = Inr (JObj data)
        \<and> map_of data (lit ''users'') = None"
  then show "path_outcome fo w (PathStr fp) =
        ([\<lparr>summary_file = fp, user_count = 0, total_value = PyInt 0\<rparr>], [])"
    using load_json_file_object[of w fp data] extract_user_data_no_users[of data fo w fp]
    by (simp add: path_outcome_closed outcome_of_def)
next
  assume a: "status (files w fp) = IsFile \<and> content (files w fp) = Inr (JObj data)
        \<and> map_of data (lit ''users'') = Some u \<and> (\<nexists>us. u = JList us)"
  then show "path_outcome fo w (PathStr fp) =
        ([], [\<lparr>error_file = PathStr fp,
               error = 39 # lit ''users'' @ 39 # lit '' field must be a list''\<rparr>])"
    using load_json_file_object[of w fp data] extract_user_data_users_not_list[of data u fo w fp]
    by (simp add: path_outcome_closed outcome_of_def)
qed

theorem extract_user_data_users_entry_witness:
  "map_of ([] :: int pydict) (lit ''users'') = None
   \<and> fst (extract_user_data exact_ops
            \<lparr>files = (\<lambda>p. \<lparr>status = IsFile, content = Inr (JObj [])\<rparr>), log_records = []\<rparr>
            [] (lit ''a.json''))
       = Inr \<lparr>summary_file = lit ''a.json'', user_count = 0, total_value = PyInt 0\<rparr>
   \<and> path_outcome exact_ops
         \<lparr>files = (\<lambda>p. \<lparr>status = IsFile, content = Inr (JObj [])\<rparr>), log_records = []\<rparr>
         (PathStr (lit ''a.json''))
       = ([\<lparr>summary_file = lit ''a.json'', user_count = 0, total_value = PyInt 0\<rparr>], [])
   \<and> map_of [(lit ''users'', JInt 3 :: int json)] (lit ''users'') = Some (JInt 3)
   \<and> (\<nexists>us. JInt 3 = (JList us :: int json))
   \<and> fst (extract_user_data exact_ops
            \<lparr>files = (\<lambda>p. \<lparr>status = IsFile, content = Inr (JObj [(lit ''users'', JInt 3)])\<rparr>),
             log_records = []\<rparr>
            [(lit ''users'', JInt 3)] (lit ''b.json''))
       = Inl (FileProcessingError (lit ''b.json'')
                (39 # lit ''users'' @ 39 # lit '' field must be a list''))
   \<and> path_outcome exact_ops
         \<lparr>files = (\<lambda>p. \<lparr>status = IsFile, content = Inr (JObj [(lit ''users'', JInt 3)])\<rparr>),
          log_records = []\<rparr>
         (PathStr (lit ''b.json''))
       = ([], [\<lparr>error_file = PathStr (lit ''b.json''),
                error = 39 # lit ''users'' @ 39 # lit '' field must be a list''\<rparr>])"
  using extract_user_data_users_entry
    [of "[]" exact_ops
        "\<lparr>files = (\<lambda>p. \<lparr>status = IsFile, content = Inr (JObj [])\<rparr>), log_records = []\<rparr>"
        "lit ''a.json''" JNull]
    extract_user_data_users_entry
    [of "[(lit ''users'', JInt 3)]" exact_ops
        "\<lparr>files = (\<lambda>p. \<lparr>status = IsFile, content = Inr (JObj [(lit ''users'', JInt 3)])\<rparr>),
          log_records = []\<rparr>"
        "lit ''b.json''" "JInt 3"]
  by simp

subsection \<open>Count and total of a file\<close>

lemma example_value_fields:
  "value_fields example_users = [JInt 5, JStr (lit ''x''), JInt 0]"
  by (simp add: value_fields_def lit_def)

lemma reference_summary_example: "reference_summary fo fp (JObj example_data) = Inl TypeError"
  by (simp add: reference_summary_def)

lemma example_good: "example_files (lit ''good.json'') = \<lparr>status = IsFile, content = Inr (JObj example_data)\<rparr>"
  by (simp add: example_files_def)

lemma example_bad: "example_files (lit ''bad.json'') =
   \<lparr>status = IsFile, content = Inl (JSONDecodeError (lit ''Expecting value: line 1 column 1 (char 0)''))\<rparr>"
  by (simp add: example_files_def lit_def)

lemma example_missing: "example_files (lit ''missing.json'') = \<lparr>status = NotFile, content = Inl FileNotFoundError\<rparr>"
  by (simp add: example_files_def lit_def)

lemma exact_ops_simps:
  "float_of_int exact_ops 0 = Some 0" "float_of_int exact_ops 5 = Some 5"
  "float_of_str exact_ops (lit ''x'') = None"
  "float_add exact_ops a b = a + b"
  by (simp_all add: exact_ops_def digit_value_def lit_def)

text \<open>
  C2, amended: when \<open>users\<close> is a list, extraction fails only on a \<open>value\<close> that is an
  \<open>int\<close> too large for a float; otherwise the summary has the length of the list as
  \<open>user_count\<close> and, as \<open>total_value\<close>, the sum from left to right of the floats that
  the \<open>value\<close> fields of the object entries convert to, an absent field counting as
  \<open>0\<close>. For the users of the spec's example this is count 3 and total 5, in every
  float arithmetic where \<open>0.0 + 5.0 = 5.0 + 0.0 = 5.0\<close> and \<open>float('x')\<close> fails. The
  expression of the two reference modules raises TypeError on that example.
\<close>

theorem extract_user_data_count_and_total:
  "(float_of_int fo 0 = Some z \<and> map_of data (lit ''users'') = Some (JList us) \<longrightarrow>
      fst (extract_user_data fo w data fp) =
        (if overflows fo (value_fields us)
         then Inl (FileProcessingError fp (lit ''Data extraction error: '' @ overflow_text))
         else Inr \<lparr>summary_file = fp, user_count = length us,
                   total_value = float_sum fo z (coercible fo (value_fields us))\<rparr>))
   \<and> (float_of_int fo 0 = Some z \<and> float_of_int fo 5 = Some five
        \<and> float_of_str fo (lit ''x'') = None
        \<and> float_add fo z five = five \<and> float_add fo five z = five \<longrightarrow>
      fst (extract_user_data fo w example_data fp) =
        Inr \<lparr>summary_file = fp, user_count = 3, total_value = PyFloat five\<rparr>)
   \<and> reference_summary fo fp (JObj example_data) = Inl TypeError"
proof (intro conjI impI)
  assume "float_of_int fo 0 = Some z \<and> map_of data (lit ''users'') = Some (JList us)"
  then show "fst (extract_user_data fo w data fp) =
        (if overflows fo (value_fields us)
         then Inl (FileProcessingError fp (lit ''Data extraction error: '' @ overflow_text))
         else Inr \<lparr>summary_file = fp, user_count = length us,
                   total_value = float_sum fo z (coercible fo (value_fields us))\<rparr>)"
    using extract_user_data_list[of fo z data us w fp] by blast
next
  assume a: "float_of_int fo 0 = Some z \<and> float_of_int fo 5 = Some five
        \<and> float_of_str fo (lit ''x'') = None
        \<and> float_add fo z five = five \<and> float_add fo five z = five"
  have u: "map_of example_data (lit ''users'') = Some (JList example_users)"
    by simp
  have l: "length (example_users :: 'a json list) = 3"
    by simp
  have o: "\<not> overflows fo (value_fields example_users)"
    using a by (simp add: example_value_fields overflows_def)
  have c: "coercible fo (value_fields example_users) = [five, z]"
    using a by (simp add: example_value_fields coercible_def)
  show "fst (extract_user_data fo w example_data fp) =
        Inr \<lparr>summary_file = fp, user_count = 3, total_value = PyFloat five\<rparr>"
    using a extract_user_data_list[of fo z example_data example_users w fp, OF _ u]
    by (simp add: o c l float_sum_def)
next
  show "reference_summary fo fp (JObj example_data) = Inl TypeError"
    by (rule reference_summary_example)
qed

theorem extract_user_data_count_and_total_witness:
  "float_of_int exact_ops 0 = Some 0 \<and> float_of_int exact_ops 5 = Some 5
   \<and> float_of_str exact_ops (lit ''x'') = None
   \<and> float_add exact_ops 0 5 = 5 \<and> float_add exact_ops 5 0 = 5
   \<and> map_of (example_data :: int pydict) (lit ''users'') = Some (JList example_users)
   \<and> \<not> overflows exact_ops (value_fields example_users)
   \<and> fst (extract_user_data exact_ops example_world example_data (lit ''good.json'')) =
       Inr \<lparr>summary_file = lit ''good.json'', user_count = 3, total_value = PyFloat 5\<rparr>
   \<and> returned exact_ops example_world example_paths =
       [\<lparr>summary_file = lit ''good.json'', user_count = 3, total_value = PyFloat 5\<rparr>]
   \<and> map error (errors (run_loop exact_ops example_world example_paths)) =
       [lit ''File does not exist or is not accessible'',
        lit ''Invalid JSON format: '' @ lit ''Expecting value: line 1 column 1 (char 0)'']"
proof -
  have x: "fst (extract_user_data exact_ops example_world example_data (lit ''good.json'')) =
       Inr \<lparr>summary_file = lit ''good.json'', user_count = 3, total_value = PyFloat 5\<rparr>"
  proof -
    have h: "float_of_int exact_ops 0 = Some 0 \<and> float_of_int exact_ops 5 = Some 5
        \<and> float_of_str exact_ops (lit ''x'') = None
        \<and> float_add exact_ops 0 5 = 5 \<and> float_add exact_ops 5 0 = 5"
      by (simp add: exact_ops_simps)
    show ?thesis
      using extract_user_data_count_and_total
        [of exact_ops 0 example_data example_users example_world "lit ''good.json''" 5] h
      by blast
  qed
  have o: "\<not> overflows exact_ops (value_fields example_users)"
    by (simp add: example_value_fields overflows_def exact_ops_simps)
  have r: "returned exact_ops example_world example_paths =
       [\<lparr>summary_file = lit ''good.json'', user_count = 3, total_value = PyFloat 5\<rparr>]"
    using x
    by (simp add: returned_closed path_outcome_closed outcome_of_def example_paths_def
        example_world_def example_good example_bad example_missing load_json_file_def)
  have e: "map error (errors (run_loop exact_ops example_world example_paths)) =
       [lit ''File does not exist or is not accessible'',
        lit ''Invalid JSON format: '' @ lit ''Expecting value: line 1 column 1 (char 0)'']"
    using x run_loop_closed[of exact_ops example_world example_paths]
    by (simp add: path_outcome_closed outcome_of_def example_paths_def
        example_world_def example_good example_bad example_missing load_json_file_def)
  show ?thesis using x o r e by (simp add: exact_ops_simps)
qed

text \<open>
  The claim as stated fails on the well-formed file of the example: the refactored
  module returns its summary, \<open>original.py\<close> raises TypeError, and the hand-written
  refactor returns no summary for it.
\<close>

theorem reference_implementations_differ:
  "returned exact_ops example_world [PathStr (lit ''good.json'')] =
       [\<lparr>summary_file = lit ''good.json'', user_count = 3, total_value = PyFloat 5\<rparr>]
   \<and> original_process_user_files exact_ops example_world [lit ''good.json''] = Inl (Raised TypeError)
   \<and> fst (human_process_user_files exact_ops example_world [lit ''good.json'']) = []"
proof -
  have x: "fst (extract_user_data exact_ops example_world example_data (lit ''good.json'')) =
       Inr \<lparr>summary_file = lit ''good.json'', user_count = 3, total_value = PyFloat 5\<rparr>"
    using extract_user_data_list[of exact_ops 0 example_data example_users example_world "lit ''good.json''"]
    by (simp add: exact_ops_simps example_value_fields overflows_def coercible_def float_sum_def)
  have r: "returned exact_ops example_world [PathStr (lit ''good.json'')] =
       [\<lparr>summary_file = lit ''good.json'', user_count = 3, total_value = PyFloat 5\<rparr>]"
    using x
    by (simp add: returned_closed path_outcome_closed outcome_of_def
        example_world_def example_good load_json_file_def)
  have o: "original_process_user_files exact_ops example_world [lit ''good.json''] = Inl (Raised TypeError)"
    by (simp add: original_process_user_files_def example_world_def example_good
        reference_summary_example)
  have h: "fst (human_process_user_files exact_ops example_world [lit ''good.json'']) = []"
    by (simp add: human_process_user_files_def example_world_def example_good
        reference_summary_example)
  show ?thesis using r o h by simp
qed

text \<open>The three files of the example: one summary, two errors, in the order of the paths.\<close>

theorem one_outcome_per_path_witness:
  "results (run_loop exact_ops example_world example_paths) =
     [\<lparr>summary_file = lit ''good.json'', user_count = 3, total_value = PyFloat 5\<rparr>]
   \<and> map error_file (errors (run_loop exact_ops example_world example_paths)) =
       [PathStr (lit ''missing.json''), PathStr (lit ''bad.json'')]
   \<and> length (results (run_loop exact_ops example_world example_paths))
       + length (errors (run_loop exact_ops example_world example_paths)) = 3"
proof -
  have x: "fst (extract_user_data exact_ops example_world example_data (lit ''good.json'')) =
       Inr \<lparr>summary_file = lit ''good.json'', user_count = 3, total_value = PyFloat 5\<rparr>"
    using extract_user_data_list[of exact_ops 0 example_data example_users example_world "lit ''good.json''"]
    by (simp add: exact_ops_simps example_value_fields overflows_def coercible_def float_sum_def)
  have o: "path_outcome exact_ops example_world (PathStr (lit ''missing.json'')) =
        ([], [\<lparr>error_file = PathStr (lit ''missing.json''),
               error = lit ''File does not exist or is not accessible''\<rparr>])"
    "path_outcome exact_ops example_world (PathStr (lit ''bad.json'')) =
        ([], [\<lparr>error_file = PathStr (lit ''bad.json''),
               error = lit ''Invalid JSON format: '' @ lit ''Expecting value: line 1 column 1 (char 0)''\<rparr>])"
    "path_outcome exact_ops example_world (PathStr (lit ''good.json'')) =
        ([\<lparr>summary_file = lit ''good.json'', user_count = 3, total_value = PyFloat 5\<rparr>], [])"
    using x
    by (simp_all add: path_outcome_closed outcome_of_def example_world_def
        example_good example_bad example_missing load_json_file_def)
  show ?thesis
    using one_outcome_per_path[of exact_ops example_world example_paths]
    by (simp add: example_paths_def o)
qed

subsection \<open>The branch for a load that returns None\<close>

lemma load_json_file_message:
  "fst (load_json_file w p) = Inl e \<Longrightarrow> exc_message e \<noteq> lit ''Failed to load file''"
  by (auto simp: load_json_file_def Let_def lit_def split: sum.splits json.splits read_error.splits)

lemma extract_user_data_message:
  "fst (extract_user_data fo w d p) = Inl e \<Longrightarrow> exc_message e \<noteq> lit ''Failed to load file''"
  by (auto simp: extract_user_data_fst lit_def split: json.splits option.splits)

lemma outcome_of_message:
  "list_all (\<lambda>e. error e \<noteq> lit ''Failed to load file'') (snd (outcome_of fo w path))"
proof (cases path)
  case (PathObj s)
  then show ?thesis by (simp add: outcome_of_def lit_def)
next
  case (PathStr p)
  show ?thesis
  proof (cases "fst (load_json_file w p)")
    case (Inl e)
    then show ?thesis using PathStr load_json_file_message[OF Inl]
      by (simp add: outcome_of_def) (simp add: lit_def)
  next
    case (Inr od)
    show ?thesis
    proof (cases od)
      case None
      then show ?thesis using Inr load_json_file_not_None[of w p] by simp
    next
      case (Some d)
      show ?thesis
      proof (cases "fst (extract_user_data fo w d p)")
        case (Inl e)
        then show ?thesis using PathStr Inr Some extract_user_data_message[OF Inl]
          by (simp add: outcome_of_def) (simp add: lit_def)
      next
        case r: (Inr r)
        then show ?thesis using PathStr Inr Some
          by (simp add: outcome_of_def) (simp add: lit_def)
      qed
    qed
  qed
qed

lemma list_all_concat_map: "(\<And>x. list_all P (f x)) \<Longrightarrow> list_all P (concat (map f xs))"
  by (induction xs) simp_all

text \<open>
  C10: \<open>load_json_file\<close> never returns \<open>None\<close>, and no error record of a run has the
  reason \<open>Failed to load file\<close>.
\<close>

theorem load_json_file_never_None:
  "fst (load_json_file w fp) \<noteq> Inr None
   \<and> list_all (\<lambda>e. error e \<noteq> lit ''Failed to load file'') (errors (run_loop fo w file_paths))"
proof
  show "fst (load_json_file w fp) \<noteq> Inr None" by (rule load_json_file_not_None)
  have "errors (run_loop fo w file_paths) = concat (map (\<lambda>p. snd (outcome_of fo w p)) file_paths)"
    using run_loop_closed[of fo w file_paths] by (simp add: path_outcome_closed)
  then show "list_all (\<lambda>e. error e \<noteq> lit ''Failed to load file'') (errors (run_loop fo w file_paths))"
    using list_all_concat_map[of "\<lambda>e. error e \<noteq> lit ''Failed to load file''" "\<lambda>p. snd (outcome_of fo w p)" file_paths]
      outcome_of_message[of fo w] by simp
qed

section \<open>Properties of the user endpoint\<close>

subsection \<open>The matcher\<close>

lemma re_match_here_Eol: "re_match_here [Eol] b s = (s = [] \<or> s = [10])"
  by simp

lemma re_match_here_One:
  "re_match_here (One cls # r) b s = (\<exists>x ys. s = x # ys \<and> cls x \<and> re_match_here r False ys)"
  by (cases s) simp_all

lemma re_match_here_AtLeast:
  "re_match_here (AtLeast n cls # r) b s =
     (\<exists>xs ys. s = xs @ ys \<and> n \<le> length xs \<and> list_all cls xs
              \<and> re_match_here r (b \<and> xs = []) ys)"
proof (induction s arbitrary: n b)
  case Nil
  show ?case by (cases n) simp_all
next
  case (Cons x s)
  show ?case
  proof (cases n)
    case 0
    have "re_match_here (AtLeast 0 cls # r) b (x # s) =
            ((cls x \<and> (\<exists>xs ys. s = xs @ ys \<and> list_all cls xs \<and> re_match_here r False ys))
             \<or> re_match_here r b (x # s))"
      by (simp add: Cons.IH[of 0 False])
    also have "\<dots> = (\<exists>xs ys. x # s = xs @ ys \<and> 0 \<le> length xs \<and> list_all cls xs
              \<and> re_match_here r (b \<and> xs = []) ys)" (is "?L = ?R")
    proof
      assume ?L
      then show ?R
      proof
        assume "cls x \<and> (\<exists>xs ys. s = xs @ ys \<and> list_all cls xs \<and> re_match_here r False ys)"
        then obtain xs ys where "s = xs @ ys" "list_all cls xs" "re_match_here r False ys" "cls x"
          by blast
        then have "x # s = (x # xs) @ ys \<and> 0 \<le> length (x # xs) \<and> list_all cls (x # xs)
              \<and> re_match_here r (b \<and> x # xs = []) ys" by simp
        then show ?R by blast
      next
        assume "re_match_here r b (x # s)"
        then have "x # s = [] @ (x # s) \<and> 0 \<le> length ([] :: nat list) \<and> list_all cls []
              \<and> re_match_here r (b \<and> ([] :: nat list) = []) (x # s)" by simp
        then show ?R by blast
      qed
    next
      assume ?R
      then obtain xs ys where h: "x # s = xs @ ys" "list_all cls xs"
        "re_match_here r (b \<and> xs = []) ys" by blast
      show ?L
      proof (cases xs)
        case Nil
        then show ?thesis using h by simp
      next
        case (Cons a as)
        then have "cls x" "s = as @ ys" "list_all cls as" "re_match_here r False ys"
          using h by simp_all
        then show ?thesis by blast
      qed
    qed
    finally show ?thesis using 0 by simp
  next
    case (Suc m)
    have "re_match_here (AtLeast (Suc m) cls # r) b (x # s) =
            (cls x \<and> (\<exists>xs ys. s = xs @ ys \<and> m \<le> length xs \<and> list_all cls xs
                \<and> re_match_here r False ys))"
      by (simp add: Cons.IH[of m False])
    also have "\<dots> = (\<exists>xs ys. x # s = xs @ ys \<and> Suc m \<le> length xs \<and> list_all cls xs
              \<and> re_match_here r (b \<and> xs = []) ys)" (is "?L = ?R")
    proof
      assume ?L
      then obtain xs ys where "s = xs @ ys" "m \<le> length xs" "list_all cls xs"
        "re_match_here r False ys" "cls x" by blast
      then have "x # s = (x # xs) @ ys \<and> Suc m \<le> length (x # xs) \<and> list_all cls (x # xs)
              \<and> re_match_here r (b \<and> x # xs = []) ys" by simp
      then show ?R by blast
    next
      assume ?R
      then obtain xs ys where h: "x # s = xs @ ys" "Suc m \<le> length xs" "list_all cls xs"
        "re_match_here r (b \<and> xs = []) ys" by blast
      then obtain as where "xs = x # as" by (cases xs) auto
      then have "cls x" "s = as @ ys" "m \<le> length as" "list_all cls as" "re_match_here r False ys"
        using h by simp_all
      then show ?L by blast
    qed
    finally show ?thesis using Suc by simp
  qed
qed

lemma name_char_newline: "name_char 10"
  by (simp add: name_char_def py_isspace_def)

lemma re_match_name_pattern: "re_match name_pattern t = (t \<noteq> [] \<and> list_all name_char t)"
proof -
  have "re_match name_pattern t =
     (\<exists>xs ys. t = xs @ ys \<and> 1 \<le> length xs \<and> list_all name_char xs \<and> (ys = [] \<or> ys = [10]))"
    by (simp add: re_match_def name_pattern_def re_match_here_AtLeast)
  also have "\<dots> = (t \<noteq> [] \<and> list_all name_char t)" (is "?L = ?R")
  proof
    assume ?L
    then obtain xs ys where h: "t = xs @ ys" "1 \<le> length xs" "list_all name_char xs"
      "ys = [] \<or> ys = [10]" by blast
    then show ?R using name_char_newline by auto
  next
    assume r: ?R
    then have "t = t @ [] \<and> 1 \<le> length t \<and> list_all name_char t \<and> (([] :: nat list) = [] \<or> ([] :: nat list) = [10])"
      by (cases t) simp_all
    then show ?L by blast
  qed
  finally show ?thesis .
qed

lemma list_all_dropWhile:
  "(\<And>x. Q x \<Longrightarrow> P x) \<Longrightarrow> list_all P (dropWhile Q xs) = list_all P xs"
  by (induction xs) auto

lemma list_all_py_strip: "list_all name_char (py_strip s) = list_all name_char s"
proof -
  have w: "py_isspace x \<Longrightarrow> name_char x" for x by (simp add: name_char_def)
  have "list_all name_char (py_strip s) = list_all name_char (rev (dropWhile py_isspace s))"
    unfolding py_strip_def
    using list_all_dropWhile[of py_isspace name_char "rev (dropWhile py_isspace s)", OF w]
    by (simp add: list_all_iff)
  also have "\<dots> = list_all name_char s"
    using list_all_dropWhile[of py_isspace name_char s, OF w] by (simp add: list_all_iff)
  finally show ?thesis .
qed

subsection \<open>validate_name\<close>

lemma strip_Jo: "py_strip (lit '' Jo '') = lit ''Jo''"
  by (simp add: py_strip_def lit_def py_isspace_def)

lemma strip_a: "py_strip (lit '' a'') = lit ''a''"
  by (simp add: py_strip_def lit_def py_isspace_def)

lemma strip_J0: "py_strip (lit ''J0'') = lit ''J0''"
  by (simp add: py_strip_def lit_def py_isspace_def)

text \<open>
  C6, amended: the rules apply to the name with its leading and trailing white space
  removed. A string whose trimmed form has 2 to 100 characters and whose characters
  are all ASCII letters, white space, hyphen or apostrophe is valid. A non-empty
  string whose trimmed form has fewer than 2 characters is invalid with the
  minimum-length message, one whose trimmed form has more than 100 with the
  maximum-length message, and one whose trimmed length is in range and that holds
  any other character (a digit, say) with the invalid-characters message: the first
  rule violated, in the order of the source, gives the message. The empty string and
  every value that is not a string are invalid with the non-empty-string message.
\<close>

theorem validate_name_rules:
  "(2 \<le> length (py_strip s) \<and> length (py_strip s) \<le> 100 \<and> list_all name_char s \<longrightarrow>
      validate_name (JStr s :: 'f json) = (True, []))
   \<and> (s \<noteq> [] \<and> length (py_strip s) < 2 \<longrightarrow>
      validate_name (JStr s :: 'f json) = (False, lit ''Name must be at least 2 characters long''))
   \<and> (100 < length (py_strip s) \<longrightarrow>
      validate_name (JStr s :: 'f json) = (False, lit ''Name must not exceed 100 characters''))
   \<and> (2 \<le> length (py_strip s) \<and> length (py_strip s) \<le> 100 \<and> \<not> list_all name_char s \<longrightarrow>
      validate_name (JStr s :: 'f json) = (False, lit ''Name contains invalid characters''))
   \<and> validate_name (JStr [] :: 'f json) = (False, lit ''Name must be a non-empty string'')
   \<and> ((\<nexists>t. v = JStr t) \<longrightarrow>
      validate_name (v :: 'f json) = (False, lit ''Name must be a non-empty string''))"
proof (intro conjI impI)
  have e: "py_strip [] = []" by (simp add: py_strip_def)
  assume a: "2 \<le> length (py_strip s) \<and> length (py_strip s) \<le> 100 \<and> list_all name_char s"
  then have "s \<noteq> []" "py_strip s \<noteq> []" using e by auto
  then show "validate_name (JStr s :: 'f json) = (True, [])"
    using a by (simp add: validate_name_def Let_def re_match_name_pattern list_all_py_strip)
next
  assume "s \<noteq> [] \<and> length (py_strip s) < 2"
  then show "validate_name (JStr s :: 'f json) = (False, lit ''Name must be at least 2 characters long'')"
    by (simp add: validate_name_def Let_def)
next
  have e: "py_strip [] = []" by (simp add: py_strip_def)
  assume a: "100 < length (py_strip s)"
  then have "s \<noteq> []" using e by auto
  then show "validate_name (JStr s :: 'f json) = (False, lit ''Name must not exceed 100 characters'')"
    using a by (simp add: validate_name_def Let_def)
next
  have e: "py_strip [] = []" by (simp add: py_strip_def)
  assume a: "2 \<le> length (py_strip s) \<and> length (py_strip s) \<le> 100 \<and> \<not> list_all name_char s"
  then have "s \<noteq> []" using e by auto
  then show "validate_name (JStr s :: 'f json) = (False, lit ''Name contains invalid characters'')"
    using a by (simp add: validate_name_def Let_def re_match_name_pattern list_all_py_strip)
next
  show "validate_name (JStr [] :: 'f json) = (False, lit ''Name must be a non-empty string'')"
    by (simp add: validate_name_def)
next
  assume "\<nexists>t. v = JStr t"
  then show "validate_name v = (False, lit ''Name must be a non-empty string'')"
    by (cases v) (simp_all add: validate_name_def)
qed

theorem validate_name_rules_witness:
  "2 \<le> length (py_strip (lit '' Jo '')) \<and> length (py_strip (lit '' Jo '')) \<le> 100
   \<and> list_all name_char (lit '' Jo '')
   \<and> validate_name (JStr (lit '' Jo '') :: unit json) = (True, [])
   \<and> lit '' a'' \<noteq> [] \<and> length (py_strip (lit '' a'')) < 2
   \<and> validate_name (JStr (lit '' a'') :: unit json)
       = (False, lit ''Name must be at least 2 characters long'')
   \<and> 100 < length (py_strip (replicate 101 97))
   \<and> validate_name (JStr (replicate 101 97) :: unit json)
       = (False, lit ''Name must not exceed 100 characters'')
   \<and> \<not> list_all name_char (lit ''J0'')
   \<and> validate_name (JStr (lit ''J0'') :: unit json)
       = (False, lit ''Name contains invalid characters'')
   \<and> (\<nexists>t. (JInt 7 :: unit json) = JStr t)
   \<and> validate_name (JInt 7 :: unit json) = (False, lit ''Name must be a non-empty string'')"
proof -
  have s101: "py_strip (replicate 101 97) = replicate 101 97"
    by (simp add: py_strip_def py_isspace_def dropWhile_replicate)
  have c1: "list_all name_char (lit '' Jo '')"
    by (simp add: lit_def name_char_def ascii_letter_def py_isspace_def)
  have c2: "\<not> list_all name_char (lit ''J0'')"
    by (simp add: lit_def name_char_def ascii_letter_def py_isspace_def)
  have n: "lit '' a'' \<noteq> []" by (simp add: lit_def)
  have l1: "length (lit ''Jo'') = 2" "length (lit ''a'') = 1" "length (lit ''J0'') = 2"
    by (simp_all add: lit_def)
  show ?thesis
    using validate_name_rules[of "lit '' Jo ''" "JInt 7 :: unit json"]
      validate_name_rules[of "lit '' a''" "JInt 7 :: unit json"]
      validate_name_rules[of "replicate 101 97" "JInt 7 :: unit json"]
      validate_name_rules[of "lit ''J0''" "JInt 7 :: unit json"]
    by (simp add: strip_Jo strip_a strip_J0 s101 c1 c2 n l1)
qed

text \<open>
  The claim as stated counts the characters of the string as given and allows the
  space as the only white space: \<open>" a"\<close> has length 2 and allowed characters only and
  is invalid; a space followed by 100 letters has length 101 and is valid; \<open>"a\tb"\<close>
  holds a tab and is valid.
\<close>

theorem validate_name_untrimmed_length:
  "length (lit '' a'') = 2
   \<and> list_all (\<lambda>c. ascii_letter c \<or> c = 32 \<or> c = 45 \<or> c = 39) (lit '' a'')
   \<and> validate_name (JStr (lit '' a'') :: unit json)
       = (False, lit ''Name must be at least 2 characters long'')
   \<and> length (32 # replicate 100 97) = 101
   \<and> list_all (\<lambda>c. ascii_letter c \<or> c = 32 \<or> c = 45 \<or> c = 39) (32 # replicate 100 97)
   \<and> validate_name (JStr (32 # replicate 100 97) :: unit json) = (True, [])
   \<and> \<not> (ascii_letter 9 \<or> 9 = (32::nat) \<or> 9 = (45::nat) \<or> 9 = (39::nat))
   \<and> validate_name (JStr [97, 9, 98] :: unit json) = (True, [])"
proof -
  have a: "validate_name (JStr (lit '' a'') :: unit json)
       = (False, lit ''Name must be at least 2 characters long'')"
    by (simp add: validate_name_def Let_def strip_a) (simp add: lit_def)
  have s: "py_strip (32 # replicate 100 97) = replicate 100 97"
    by (simp add: py_strip_def py_isspace_def dropWhile_replicate)
  have b: "validate_name (JStr (32 # replicate 100 97) :: unit json) = (True, [])"
    by (simp add: validate_name_def Let_def s re_match_name_pattern)
       (simp add: list_all_iff name_char_def ascii_letter_def)
  have t: "py_strip [97, 9, 98] = [97, 9, 98]"
    by (simp add: py_strip_def py_isspace_def)
  have c: "validate_name (JStr [97, 9, 98] :: unit json) = (True, [])"
    by (simp add: validate_name_def Let_def t re_match_name_pattern)
       (simp add: name_char_def ascii_letter_def py_isspace_def)
  have d: "list_all (\<lambda>c. ascii_letter c \<or> c = 32 \<or> c = 45 \<or> c = 39) (32 # replicate 100 97)"
    by (simp add: list_all_iff ascii_letter_def)
  show ?thesis using a b c d by (simp add: lit_def ascii_letter_def)
qed

subsection \<open>validate_email\<close>

lemma re_match_here_no_Bol_tail:
  "re_match_here [One c1, AtLeast n2 c2, One c3, AtLeast n4 c4, Eol] b s =
     (\<exists>domain tld rest x y.
        s = [x] @ domain @ [y] @ tld @ rest \<and> c1 x \<and> n2 \<le> length domain \<and> list_all c2 domain
        \<and> c3 y \<and> n4 \<le> length tld \<and> list_all c4 tld \<and> (rest = [] \<or> rest = [10]))"
  (is "?L = ?R")
proof
  assume ?L
  then obtain x s2 where 1: "s = x # s2" "c1 x"
    and m2: "re_match_here [AtLeast n2 c2, One c3, AtLeast n4 c4, Eol] False s2"
    unfolding re_match_here_One by blast
  from m2 obtain domain s3 where 2: "s2 = domain @ s3" "n2 \<le> length domain" "list_all c2 domain"
    and m3: "re_match_here [One c3, AtLeast n4 c4, Eol] False s3"
    unfolding re_match_here_AtLeast by auto
  from m3 obtain y s4 where 3: "s3 = y # s4" "c3 y"
    and m4: "re_match_here [AtLeast n4 c4, Eol] False s4"
    unfolding re_match_here_One by blast
  from m4 obtain tld rest where 4: "s4 = tld @ rest" "n4 \<le> length tld" "list_all c4 tld"
      "rest = [] \<or> rest = [10]"
    unfolding re_match_here_AtLeast re_match_here_Eol by auto
  have "s = [x] @ domain @ [y] @ tld @ rest" using 1 2 3 4 by simp
  then show ?R using 1 2 3 4 by blast
next
  assume ?R
  then obtain domain tld rest x y where h:
    "s = [x] @ domain @ [y] @ tld @ rest" "c1 x" "n2 \<le> length domain" "list_all c2 domain"
    "c3 y" "n4 \<le> length tld" "list_all c4 tld" "rest = [] \<or> rest = [10]"
    by blast
  have m4: "re_match_here [AtLeast n4 c4, Eol] False (tld @ rest)"
    unfolding re_match_here_AtLeast re_match_here_Eol using h(6,7,8) by blast
  have m3: "re_match_here [One c3, AtLeast n4 c4, Eol] False (y # tld @ rest)"
    unfolding re_match_here_One using m4 h(5) by blast
  have m2: "re_match_here [AtLeast n2 c2, One c3, AtLeast n4 c4, Eol] False
      (domain @ y # tld @ rest)"
    unfolding re_match_here_AtLeast[of n2 c2]
  proof (intro exI conjI)
    show "domain @ y # tld @ rest = domain @ (y # tld @ rest)" by simp
    show "n2 \<le> length domain" by (rule h(3))
    show "list_all c2 domain" by (rule h(4))
    show "re_match_here [One c3, AtLeast n4 c4, Eol] (False \<and> domain = []) (y # tld @ rest)"
      using m3 by simp
  qed
  have "re_match_here [One c1, AtLeast n2 c2, One c3, AtLeast n4 c4, Eol] b
      (x # domain @ y # tld @ rest)"
    unfolding re_match_here_One[of c1] using m2 h(2) by blast
  then show ?L using h(1) by simp
qed

lemma re_match_email_pattern:
  "re_match email_pattern s =
     (\<exists>local domain tld rest.
        s = local @ [64] @ domain @ [46] @ tld @ rest
        \<and> local \<noteq> [] \<and> list_all email_local_char local
        \<and> domain \<noteq> [] \<and> list_all email_domain_char domain
        \<and> 2 \<le> length tld \<and> list_all ascii_letter tld
        \<and> (rest = [] \<or> rest = [10]))" (is "?L = ?R")
proof -
  let ?tail = "[One (\<lambda>c. c = 64), AtLeast 1 email_domain_char,
      One (\<lambda>c. c = 46), AtLeast 2 ascii_letter, Eol]"
  have p: "re_match email_pattern s = re_match_here (AtLeast 1 email_local_char # ?tail) True s"
    by (simp only: re_match_def email_pattern_def re_match_here.simps(2) simp_thms)
  show ?thesis
  proof
    assume ?L
    then obtain local s1 where 1: "s = local @ s1" "1 \<le> length local"
        "list_all email_local_char local"
      and m1: "re_match_here ?tail (True \<and> local = []) s1"
      unfolding p re_match_here_AtLeast[of 1 email_local_char] by blast
    from m1 obtain domain tld rest x y where 2:
      "s1 = [x] @ domain @ [y] @ tld @ rest" "x = 64" "1 \<le> length domain"
      "list_all email_domain_char domain" "y = 46" "2 \<le> length tld" "list_all ascii_letter tld"
      "rest = [] \<or> rest = [10]"
      unfolding re_match_here_no_Bol_tail by blast
    have "s = local @ [64] @ domain @ [46] @ tld @ rest \<and> local \<noteq> [] \<and> domain \<noteq> []"
      using 1 2 by auto
    then show ?R using 1 2 by blast
  next
    assume ?R
    then obtain local domain tld rest where h:
      "s = local @ [64] @ domain @ [46] @ tld @ rest"
      "local \<noteq> []" "list_all email_local_char local"
      "domain \<noteq> []" "list_all email_domain_char domain"
      "2 \<le> length tld" "list_all ascii_letter tld" "rest = [] \<or> rest = [10]"
      by blast
    have m1: "re_match_here ?tail (True \<and> local = []) ([64] @ domain @ [46] @ tld @ rest)"
      unfolding re_match_here_no_Bol_tail
    proof (intro exI conjI)
      show "[64] @ domain @ [46] @ tld @ rest = [64] @ domain @ [46] @ tld @ rest" ..
      show "(64::nat) = 64" ..
      show "1 \<le> length domain" using h(4) by (cases domain) simp_all
      show "list_all email_domain_char domain" by (rule h(5))
      show "(46::nat) = 46" ..
      show "2 \<le> length tld" by (rule h(6))
      show "list_all ascii_letter tld" by (rule h(7))
      show "rest = [] \<or> rest = [10]" by (rule h(8))
    qed
    show ?L
      unfolding p re_match_here_AtLeast[of 1 email_local_char]
    proof (intro exI conjI)
      show "s = local @ ([64] @ domain @ [46] @ tld @ rest)" using h(1) by simp
      show "1 \<le> length local" using h(2) by (cases local) simp_all
      show "list_all email_local_char local" by (rule h(3))
      show "re_match_here ?tail (True \<and> local = []) ([64] @ domain @ [46] @ tld @ rest)"
        by (rule m1)
    qed
  qed
qed

lemma validate_email_iff:
  "validate_email (JStr s) =
     (matches_email_pattern s \<or> (\<exists>t. s = t @ [10] \<and> matches_email_pattern t))"
proof -
  have e: "\<not> re_match email_pattern []"
    by (simp add: re_match_email_pattern)
  have "re_match email_pattern s =
     (matches_email_pattern s \<or> (\<exists>t. s = t @ [10] \<and> matches_email_pattern t))" (is "?L = ?R")
  proof
    assume ?L
    then obtain local domain tld rest where h:
      "s = local @ [64] @ domain @ [46] @ tld @ rest"
      "local \<noteq> []" "list_all email_local_char local"
      "domain \<noteq> []" "list_all email_domain_char domain"
      "2 \<le> length tld" "list_all ascii_letter tld" "rest = [] \<or> rest = [10]"
      unfolding re_match_email_pattern by blast
    have m: "matches_email_pattern (local @ [64] @ domain @ [46] @ tld)"
      unfolding matches_email_pattern_def using h(2-7) by blast
    from h(8) show ?R
    proof
      assume "rest = []"
      then show ?R using m h(1) by simp
    next
      assume "rest = [10]"
      then have "s = (local @ [64] @ domain @ [46] @ tld) @ [10]" using h(1) by simp
      then show ?R using m by blast
    qed
  next
    assume ?R
    then show ?L
    proof
      assume "matches_email_pattern s"
      then show ?L unfolding matches_email_pattern_def re_match_email_pattern
        by (metis append_Nil2)
    next
      assume "\<exists>t. s = t @ [10] \<and> matches_email_pattern t"
      then obtain t where "s = t @ [10]" "matches_email_pattern t" by blast
      then obtain local domain tld where
        "s = local @ [64] @ domain @ [46] @ tld @ [10]"
        "local \<noteq> []" "list_all email_local_char local"
        "domain \<noteq> []" "list_all email_domain_char domain"
        "2 \<le> length tld" "list_all ascii_letter tld"
        unfolding matches_email_pattern_def by auto
      then show ?L unfolding re_match_email_pattern by blast
    qed
  qed
  then show ?thesis using e by (cases "s = []") (simp_all add: validate_email_def)
qed

lemma matches_email_pattern_last:
  "matches_email_pattern s \<Longrightarrow> s \<noteq> [] \<and> ascii_letter (last s)"
proof -
  assume "matches_email_pattern s"
  then obtain local domain tld where h: "s = local @ [64] @ domain @ [46] @ tld"
    "2 \<le> length tld" "list_all ascii_letter tld"
    unfolding matches_email_pattern_def by blast
  then have "tld \<noteq> []" by auto
  then have "last s = last tld" "last tld \<in> set tld" using h(1) by simp_all
  then show ?thesis using h by (auto simp: list_all_iff)
qed

lemma matches_a_b_com: "matches_email_pattern (lit ''a@b.com'')"
proof -
  have "lit ''a@b.com'' = lit ''a'' @ [64] @ lit ''b'' @ [46] @ lit ''com''"
    by (simp add: lit_def)
  moreover have "lit ''a'' \<noteq> [] \<and> list_all email_local_char (lit ''a'')
     \<and> lit ''b'' \<noteq> [] \<and> list_all email_domain_char (lit ''b'')
     \<and> 2 \<le> length (lit ''com'') \<and> list_all ascii_letter (lit ''com'')"
    by (simp add: lit_def email_local_char_def email_domain_char_def ascii_letter_def)
  ultimately show ?thesis unfolding matches_email_pattern_def by blast
qed

text \<open>
  C5: the address \<open>a@b.com\<close> followed by a newline is accepted, though it is not a
  string of the pattern: \<open>$\<close> also matches just before a final newline. By
  \<open>validate_email_iff\<close> this is the only way the function and the pattern differ.
\<close>

theorem validate_email_trailing_newline:
  "validate_email (JStr (lit ''a@b.com'' @ [10]) :: unit json) = True
   \<and> \<not> matches_email_pattern (lit ''a@b.com'' @ [10])"
proof
  show "validate_email (JStr (lit ''a@b.com'' @ [10]) :: unit json) = True"
    using matches_a_b_com by (simp add: validate_email_iff)
  show "\<not> matches_email_pattern (lit ''a@b.com'' @ [10])"
    using matches_email_pattern_last[of "lit ''a@b.com'' @ [10]"]
    by (auto simp: ascii_letter_def)
qed

subsection \<open>create_user\<close>

lemma internal_error_response_fst:
  "fst (internal_error_response a lg) =
     ([(lit ''error'', JStr (lit ''Internal server error'')),
       (lit ''message'', JStr (lit ''An unexpected error occurred processing your request''))],
      500)"
  by (simp add: internal_error_response_def)

lemma create_user_status:
  assumes "snd (fst (create_user request lg)) = 500"
  shows "\<exists>a. create_user request lg = internal_error_response a lg"
proof (cases request)
  case (Inl e)
  then have "create_user request lg = internal_error_response (AStr e) lg"
    by (simp add: create_user_def)
  then show ?thesis by blast
next
  case (Inr data)
  show ?thesis
  proof (cases "data = JNull")
    case True
    then show ?thesis using assms Inr by (simp add: create_user_def)
  next
    case False
    show ?thesis
    proof (cases "validate_user_data data")
      case (Inl e)
      then have "create_user request lg = internal_error_response (AExc e) lg"
        using Inr False by (simp add: create_user_def)
      then show ?thesis by blast
    next
      case r: (Inr r)
      obtain is_valid error_message validated_data where
        v: "r = (is_valid, error_message, validated_data)" by (cases r)
      show ?thesis
      proof (cases is_valid)
        case False
        then show ?thesis using assms Inr \<open>data \<noteq> JNull\<close> r v by (simp add: create_user_def)
      next
        case True
        show ?thesis
        proof (cases "map_of validated_data (lit ''email'')")
          case None
          then have "create_user request lg = internal_error_response (AExc KeyError) lg"
            using Inr \<open>data \<noteq> JNull\<close> r v True by (simp add: create_user_def)
          then show ?thesis by blast
        next
          case e: (Some email)
          show ?thesis
          proof (cases "map_of validated_data (lit ''name'')")
            case None
            then have "create_user request lg = internal_error_response (AExc KeyError) lg"
              using Inr \<open>data \<noteq> JNull\<close> r v True e by (simp add: create_user_def)
            then show ?thesis by blast
          next
            case (Some name)
            then show ?thesis using assms Inr \<open>data \<noteq> JNull\<close> r v True e
              by (simp add: create_user_def)
          qed
        qed
      qed
    qed
  qed
qed

text \<open>
  C7: when \<open>request.get_json()\<close> raises, whatever the exception, the response is the
  fixed body with status 500 and the text of the exception goes to the log only;
  and every response with status 500 has that same body.
\<close>

theorem create_user_internal_error:
  "fst (create_user (Inl e) (lg :: 'f log_record list)) =
     ([(lit ''error'', JStr (lit ''Internal server error'')),
       (lit ''message'', JStr (lit ''An unexpected error occurred processing your request''))],
      500)
   \<and> snd (create_user (Inl e) lg) =
       lg @ [(ERROR, ''Unexpected error in create_user: {}'', [AStr e])]
   \<and> (snd (fst (create_user request lg)) = 500 \<longrightarrow>
       fst (create_user request lg) =
         ([(lit ''error'', JStr (lit ''Internal server error'')),
           (lit ''message'', JStr (lit ''An unexpected error occurred processing your request''))],
          500))"
proof (intro conjI impI)
  show "fst (create_user (Inl e) lg) =
     ([(lit ''error'', JStr (lit ''Internal server error'')),
       (lit ''message'', JStr (lit ''An unexpected error occurred processing your request''))],
      500)"
    by (simp add: create_user_def internal_error_response_fst)
  show "snd (create_user (Inl e) lg) =
       lg @ [(ERROR, ''Unexpected error in create_user: {}'', [AStr e])]"
    by (simp add: create_user_def internal_error_response_def log_call_def)
  assume "snd (fst (create_user request lg)) = 500"
  then obtain a where "create_user request lg = internal_error_response a lg"
    using create_user_status[of request lg] by blast
  then show "fst (create_user request lg) =
         ([(lit ''error'', JStr (lit ''Internal server error'')),
           (lit ''message'', JStr (lit ''An unexpected error occurred processing your request''))],
          500)"
    by (simp add: internal_error_response_fst)
qed

theorem create_user_internal_error_witness:
  "snd (fst (create_user (Inl (lit ''database is down'')) ([] :: unit log_record list))) = 500
   \<and> fst (create_user (Inl (lit ''database is down'')) ([] :: unit log_record list)) =
       ([(lit ''error'', JStr (lit ''Internal server error'')),
         (lit ''message'', JStr (lit ''An unexpected error occurred processing your request''))],
        500)"
proof -
  have b: "snd (fst (create_user (Inl (lit ''database is down'')) ([] :: unit log_record list))) = 500"
    by (simp add: create_user_def internal_error_response_fst)
  have "snd (fst (create_user (Inl (lit ''database is down'')) ([] :: unit log_record list))) = 500 \<longrightarrow>
    fst (create_user (Inl (lit ''database is down'')) ([] :: unit log_record list)) =
       ([(lit ''error'', JStr (lit ''Internal server error'')),
         (lit ''message'', JStr (lit ''An unexpected error occurred processing your request''))],
        500)"
    using create_user_internal_error
      [of "lit ''database is down''" "[] :: unit log_record list" "Inl (lit ''database is down'')"]
    by blast
  then have a: "fst (create_user (Inl (lit ''database is down'')) ([] :: unit log_record list)) =
       ([(lit ''error'', JStr (lit ''Internal server error'')),
         (lit ''message'', JStr (lit ''An unexpected error occurred processing your request''))],
        500)"
    using b by (rule mp)
  from b a show ?thesis by (rule conjI)
qed

end
